theory Spec2Isabelle
  imports Main "HOL-Library.Word"
begin

section \<open>JavaScript strings\<close>

text \<open>
  A JavaScript string is a sequence of 16-bit code units. \<open>js\<close> writes a string of
  code units below 256 from its characters.
\<close>

type_synonym jsstring = "16 word list"

definition js :: "string \<Rightarrow> jsstring" where
  "js s = map of_char s"

definition dquote :: "16 word" where
  "dquote = 0x22"

definition backslash :: "16 word" where
  "backslash = 0x5C"

text \<open>\<^verbatim>\<open>`${n}`\<close> for a non-negative integer \<open>n\<close>: its decimal digits.\<close>

fun showNat :: "nat \<Rightarrow> jsstring" where
  "showNat n = (if n < 10 then [48 + of_nat n]
                else showNat (n div 10) @ [48 + of_nat (n mod 10)])"

declare showNat.simps [simp del]

text \<open>\<^verbatim>\<open>s.includes(t)\<close>: \<open>t\<close> occurs in \<open>s\<close> as a contiguous run.\<close>

fun str_includes :: "jsstring \<Rightarrow> jsstring \<Rightarrow> bool" where
  "str_includes [] t = (t = [])"
| "str_includes (c # cs) t = (take (length t) (c # cs) = t \<or> str_includes cs t)"

text \<open>
  \<^verbatim>\<open>keyMessage.toLowerCase().includes('safety')\<close>. \<^verbatim>\<open>toLowerCase\<close> replaces each code
  point by its lower-case mapping of the Unicode character database, which is never
  empty. The code units \<^verbatim>\<open>a\<close> to \<^verbatim>\<open>z\<close> appear in a mapping only for the code point itself,
  for its capital \<^verbatim>\<open>A\<close> to \<^verbatim>\<open>Z\<close>, for U+0130 (to \<^verbatim>\<open>i\<close> and U+0307) and for U+212A (to
  \<^verbatim>\<open>k\<close>); neither \<^verbatim>\<open>i\<close> nor \<^verbatim>\<open>k\<close> is a letter of the word sought. So the word occurs in
  the lower-cased string exactly when six code units in a row of the string itself are
  its letters, each in either case: when it occurs in the string with \<^verbatim>\<open>A\<close> to \<^verbatim>\<open>Z\<close>
  alone replaced, which is \<open>lowerAscii\<close>.
\<close>

definition lowerAscii :: "16 word \<Rightarrow> 16 word" where
  "lowerAscii c = (if 0x41 \<le> c \<and> c \<le> 0x5A then c + 0x20 else c)"

definition toLowerCase_includes_safety :: "jsstring \<Rightarrow> bool" where
  "toLowerCase_includes_safety s = str_includes (map lowerAscii s) (js ''safety'')"

text \<open>
  \<^verbatim>\<open>String.prototype.trim\<close> removes the white space and line terminators of ECMAScript
  from both ends: TAB, LF, VT, FF, CR, SP, NBSP, U+1680, U+2000 to U+200A, U+2028,
  U+2029, U+202F, U+205F, U+3000 and U+FEFF.
\<close>

definition isWhiteSpace :: "16 word \<Rightarrow> bool" where
  "isWhiteSpace c =
     (c \<in> {0x09, 0x0A, 0x0B, 0x0C, 0x0D, 0x20, 0xA0, 0x1680, 0x2028, 0x2029, 0x202F, 0x205F,
            0x3000, 0xFEFF}
      \<or> (0x2000 \<le> c \<and> c \<le> 0x200A))"

definition trim :: "jsstring \<Rightarrow> jsstring" where
  "trim s = rev (dropWhile isWhiteSpace (rev (dropWhile isWhiteSpace s)))"

section \<open>The runtime's JSON.parse\<close>

text \<open>
  \<^verbatim>\<open>handleGeminiError\<close> calls \<^verbatim>\<open>JSON.parse\<close> on a piece of the error message. The
  parser below follows the JSON grammar (ECMA-404) in two passes that each consume one
  symbol at a time: a lexer from code units to tokens, and a stack machine from tokens
  to a value. A number literal becomes the double nearest to it.
\<close>

subsection \<open>Numbers\<close>

text \<open>
  The magnitude of a Number that \<^verbatim>\<open>JSON.parse\<close> can produce: zero, \<open>m * 2 ^ q\<close> with
  \<open>2 ^ 52 \<le> m < 2 ^ 53\<close> and \<open>- 1074 \<le> q \<le> 971\<close> or with \<open>0 < m < 2 ^ 52\<close> and
  \<open>q = - 1074\<close>, or infinity. The sign is kept beside it.
\<close>

datatype double = Zero | Finite nat int | Infinity

datatype json =
    JNull
  | JBool bool
  | JNumber bool double
  | JString jsstring
  | JArray "json list"
  | JObject "(jsstring \<times> json) list"

fun bitlen :: "nat \<Rightarrow> nat" where
  "bitlen n = (if n = 0 then 0 else Suc (bitlen (n div 2)))"

declare bitlen.simps [simp del]

fun declen :: "nat \<Rightarrow> nat" where
  "declen n = (if n = 0 then 0 else Suc (declen (n div 10)))"

declare declen.simps [simp del]

text \<open>The quotient \<open>n / d\<close> rounded to the nearest integer, a tie to the even one.\<close>

definition round_half_even :: "nat \<Rightarrow> nat \<Rightarrow> nat" where
  "round_half_even n d =
     (let q = n div d; r = n mod d
      in if d < 2 * r then q + 1
         else if 2 * r = d \<and> odd q then q + 1
         else q)"

text \<open>\<open>at_least_pow b num den k\<close>: the fraction \<open>num / den\<close> is at least \<open>b ^ k\<close>.\<close>

definition at_least_pow :: "nat \<Rightarrow> nat \<Rightarrow> nat \<Rightarrow> int \<Rightarrow> bool" where
  "at_least_pow b num den k =
     (if 0 \<le> k then den * b ^ nat k \<le> num else den \<le> num * b ^ nat (- k))"

text \<open>
  \<open>to_double m e10\<close> is the double nearest to \<open>m * 10 ^ e10\<close>, a tie going to the even
  significand (IEEE 754 round to nearest, as \<^verbatim>\<open>JSON.parse\<close> reads a literal). With \<open>e\<close>
  the binary exponent of the value, the significand is the value over \<open>2 ^ q\<close> rounded,
  for \<open>q = e - 52\<close>, or \<open>- 1074\<close> in the subnormal range; a significand rounded up to
  \<open>2 ^ 53\<close> moves to the next exponent, and what lies beyond the largest exponent is
  infinity.
\<close>

definition to_double :: "nat \<Rightarrow> int \<Rightarrow> double" where
  "to_double m e10 =
     (if m = 0 then Zero
      else (let num = (if 0 \<le> e10 then m * 10 ^ nat e10 else m);
                den = (if 0 \<le> e10 then 1 else 10 ^ nat (- e10));
                b = int (bitlen num) - int (bitlen den);
                e = (if at_least_pow 2 num den b then b else b - 1);
                q = max (e - 52) (- 1074);
                mant = (if 0 \<le> q then round_half_even num (den * 2 ^ nat q)
                        else round_half_even (num * 2 ^ nat (- q)) den)
            in if mant = 0 then Zero
               else if mant = 2 ^ 53 then (if 971 \<le> q then Infinity else Finite (2 ^ 52) (q + 1))
               else if 971 < q then Infinity
               else Finite mant q))"

text \<open>
  \<^verbatim>\<open>Number::toString\<close> (ECMA-262) writes a finite non-zero \<open>x\<close> from integers \<open>n\<close>, \<open>k\<close>
  and \<open>s\<close> with \<open>k\<close> as small as possible, \<open>s\<close> of \<open>k\<close> digits and \<open>s * 10 ^ (n - k)\<close>
  reading back as \<open>x\<close>; of several such \<open>s\<close> the one nearest to \<open>x\<close>, the even one of two
  equally near.

  \<open>decimal_exponent mant q\<close> is the \<open>n\<close> with \<open>10 ^ (n - 1) \<le> mant * 2 ^ q < 10 ^ n\<close>.
  \<open>candidate mant q n k\<close> looks at the two integers beside \<open>mant * 2 ^ q / 10 ^ (n - k)\<close>,
  the only ones of \<open>k\<close> digits that can be nearest, and returns the chosen \<open>s\<close> with its
  \<open>n\<close> (one more when \<open>s\<close> has reached \<open>10 ^ k\<close>). Seventeen digits always read back.
\<close>

definition decimal_exponent :: "nat \<Rightarrow> int \<Rightarrow> int" where
  "decimal_exponent mant q =
     (let num = (if 0 \<le> q then mant * 2 ^ nat q else mant);
          den = (if 0 \<le> q then 1 else 2 ^ nat (- q));
          d = int (declen num) - int (declen den)
      in if at_least_pow 10 num den d then d + 1 else d)"

definition candidate :: "nat \<Rightarrow> int \<Rightarrow> int \<Rightarrow> nat \<Rightarrow> (nat \<times> int) option" where
  "candidate mant q n k =
     (let num = (if 0 \<le> q then mant * 2 ^ nat q else mant);
          den = (if 0 \<le> q then 1 else 2 ^ nat (- q));
          sc = n - int k;
          tn = (if 0 \<le> sc then num else num * 10 ^ nat (- sc));
          td = (if 0 \<le> sc then den * 10 ^ nat sc else den);
          lo = tn div td; r = tn mod td; hi = lo + 1;
          lo_ok = (to_double lo sc = Finite mant q);
          hi_ok = (to_double hi sc = Finite mant q);
          pick_hi = (if lo_ok \<and> hi_ok then (td < 2 * r \<or> (2 * r = td \<and> odd lo)) else hi_ok)
      in if lo_ok \<or> hi_ok
         then (if pick_hi then (if hi = 10 ^ k then Some (10 ^ (k - 1), n + 1) else Some (hi, n))
               else Some (lo, n))
         else None)"

function shortest :: "nat \<Rightarrow> int \<Rightarrow> int \<Rightarrow> nat \<Rightarrow> nat \<times> int \<times> nat" where
  "shortest mant q n k =
     (case candidate mant q n k of
        Some (s, n') \<Rightarrow> (s, n', k)
      | None \<Rightarrow> if k < 17 then shortest mant q n (k + 1) else (mant, n, k))"
  by pat_completeness auto
termination
  by (relation "measure (\<lambda>(mant, q, n, k). 17 - k)") auto

declare shortest.simps [simp del]

text \<open>The digits \<open>s\<close> (there are \<open>k\<close>) laid out around the decimal point for \<open>n\<close>.\<close>

definition format_double :: "nat \<Rightarrow> int \<Rightarrow> nat \<Rightarrow> jsstring" where
  "format_double s n k =
     (let ds = showNat s
      in if int k \<le> n \<and> n \<le> 21 then ds @ replicate (nat (n - int k)) 0x30
         else if 0 < n \<and> n \<le> 21 then take (nat n) ds @ js ''.'' @ drop (nat n) ds
         else if - 6 < n \<and> n \<le> 0 then js ''0.'' @ replicate (nat (- n)) 0x30 @ ds
         else (if k = 1 then ds else take 1 ds @ js ''.'' @ drop 1 ds)
              @ js ''e'' @ (if 0 \<le> n - 1 then js ''+'' else js ''-'') @ showNat (nat (abs (n - 1))))"

text \<open>\<^verbatim>\<open>Number.prototype.toString\<close> of the Number with the given sign and magnitude.\<close>

definition Number_toString :: "bool \<Rightarrow> double \<Rightarrow> jsstring" where
  "Number_toString negative x =
     (case x of
        Zero \<Rightarrow> js ''0''
      | Infinity \<Rightarrow> (if negative then js ''-Infinity'' else js ''Infinity'')
      | Finite mant q \<Rightarrow>
          (case shortest mant q (decimal_exponent mant q) 1 of
             (s, n, k) \<Rightarrow> (if negative then js ''-'' else []) @ format_double s n k))"

subsection \<open>Number literals\<close>

definition isDigit :: "16 word \<Rightarrow> bool" where
  "isDigit c = (0x30 \<le> c \<and> c \<le> 0x39)"

fun digits_val :: "nat \<Rightarrow> jsstring \<Rightarrow> nat" where
  "digits_val acc [] = acc"
| "digits_val acc (c # cs) = digits_val (10 * acc + (unat c - 48)) cs"

text \<open>
  \<open>number_parts\<close> checks a literal against
  \<^verbatim>\<open>-? (0 | [1-9][0-9]*) (. [0-9]+)? ([eE] [+-]? [0-9]+)?\<close> and returns its sign, integer
  digits, fraction digits and exponent.
\<close>

definition number_sign :: "jsstring \<Rightarrow> bool \<times> jsstring" where
  "number_sign s = (case s of [] \<Rightarrow> (False, [])
                    | c # r \<Rightarrow> if c = 0x2D then (True, r) else (False, c # r))"

definition number_fraction :: "jsstring \<Rightarrow> (jsstring \<times> jsstring) option" where
  "number_fraction s =
     (case s of [] \<Rightarrow> Some ([], [])
      | c # r \<Rightarrow>
          if c = 0x2E
          then (if takeWhile isDigit r = [] then None
                else Some (takeWhile isDigit r, dropWhile isDigit r))
          else Some ([], c # r))"

definition number_exponent :: "jsstring \<Rightarrow> int option" where
  "number_exponent s =
     (case s of [] \<Rightarrow> Some 0
      | c # r \<Rightarrow>
          if c = 0x65 \<or> c = 0x45
          then (let (eneg, ds) =
                      (case r of [] \<Rightarrow> (False, [])
                       | d # r' \<Rightarrow> if d = 0x2D then (True, r')
                                  else if d = 0x2B then (False, r')
                                  else (False, d # r'))
                in if ds = [] then None
                   else if filter isDigit ds = ds
                   then Some (if eneg then - int (digits_val 0 ds) else int (digits_val 0 ds))
                   else None)
          else None)"

definition number_parts :: "jsstring \<Rightarrow> (bool \<times> jsstring \<times> jsstring \<times> int) option" where
  "number_parts s =
     (let (neg, s1) = number_sign s;
          ip = takeWhile isDigit s1
      in if ip = [] then None
         else if 1 < length ip \<and> hd ip = 0x30 then None
         else (case number_fraction (dropWhile isDigit s1) of
                 None \<Rightarrow> None
               | Some (fp, s3) \<Rightarrow>
                   (case number_exponent s3 of
                      None \<Rightarrow> None
                    | Some ex \<Rightarrow> Some (neg, ip, fp, ex))))"

text \<open>
  The literal denotes \<open>m * 10 ^ e\<close> with \<open>m\<close> the integer and fraction digits read as one
  number and \<open>e\<close> the exponent less the number of fraction digits.
\<close>

definition number_value :: "jsstring \<Rightarrow> json option" where
  "number_value lit =
     (case number_parts lit of
        None \<Rightarrow> None
      | Some (neg, ip, fp, ex) \<Rightarrow>
          Some (JNumber neg (to_double (digits_val 0 (ip @ fp)) (ex - int (length fp)))))"

subsection \<open>Lexer\<close>

datatype token =
    TLBrace | TRBrace | TLBracket | TRBracket | TColon | TComma
  | TValue json

text \<open>
  The lexer is in one of six modes: between tokens, inside a string (with the code
  units read so far), after a backslash, inside the four hexadecimal digits of a
  \<^verbatim>\<open>\u\<close> escape (with the digits read so far), inside a number, inside a word.
\<close>

datatype lexmode =
    LStart
  | LString jsstring
  | LEscape jsstring
  | LUnicode jsstring "nat list"
  | LNumber jsstring
  | LWord jsstring

definition isJsonWs :: "16 word \<Rightarrow> bool" where
  "isJsonWs c = (c \<in> {0x09, 0x0A, 0x0D, 0x20})"

definition isNumberUnit :: "16 word \<Rightarrow> bool" where
  "isNumberUnit c = (isDigit c \<or> c \<in> set (js ''+-.eE''))"

definition isLetter :: "16 word \<Rightarrow> bool" where
  "isLetter c = (0x61 \<le> c \<and> c \<le> 0x7A)"

definition hexDigit :: "16 word \<Rightarrow> nat option" where
  "hexDigit c =
     (if 0x30 \<le> c \<and> c \<le> 0x39 then Some (unat c - 48)
      else if 0x41 \<le> c \<and> c \<le> 0x46 then Some (unat c - 55)
      else if 0x61 \<le> c \<and> c \<le> 0x66 then Some (unat c - 87)
      else None)"

definition lex_start :: "16 word \<Rightarrow> (token list \<times> lexmode) option" where
  "lex_start c =
     (if isJsonWs c then Some ([], LStart)
      else if c = of_char CHR ''{'' then Some ([TLBrace], LStart)
      else if c = of_char CHR ''}'' then Some ([TRBrace], LStart)
      else if c = of_char CHR ''['' then Some ([TLBracket], LStart)
      else if c = of_char CHR '']'' then Some ([TRBracket], LStart)
      else if c = of_char CHR '':'' then Some ([TColon], LStart)
      else if c = of_char CHR '','' then Some ([TComma], LStart)
      else if c = dquote then Some ([], LString [])
      else if isDigit c \<or> c = of_char CHR ''-'' then Some ([], LNumber [c])
      else if isLetter c then Some ([], LWord [c])
      else None)"

definition close_number :: "jsstring \<Rightarrow> token option" where
  "close_number lit = map_option TValue (number_value lit)"

definition close_word :: "jsstring \<Rightarrow> token option" where
  "close_word w =
     (if w = js ''true'' then Some (TValue (JBool True))
      else if w = js ''false'' then Some (TValue (JBool False))
      else if w = js ''null'' then Some (TValue JNull)
      else None)"

definition lex_escape :: "jsstring \<Rightarrow> 16 word \<Rightarrow> (token list \<times> lexmode) option" where
  "lex_escape acc c =
     (if c = dquote \<or> c = backslash \<or> c = of_char CHR ''/'' then Some ([], LString (acc @ [c]))
      else if c = of_char CHR ''b'' then Some ([], LString (acc @ [0x08]))
      else if c = of_char CHR ''f'' then Some ([], LString (acc @ [0x0C]))
      else if c = of_char CHR ''n'' then Some ([], LString (acc @ [0x0A]))
      else if c = of_char CHR ''r'' then Some ([], LString (acc @ [0x0D]))
      else if c = of_char CHR ''t'' then Some ([], LString (acc @ [0x09]))
      else if c = of_char CHR ''u'' then Some ([], LUnicode acc [])
      else None)"

text \<open>
  The fourth hexadecimal digit ends the escape: the code unit is the number the four
  digits write, whatever it is.
\<close>

definition lex_unicode :: "jsstring \<Rightarrow> nat list \<Rightarrow> 16 word \<Rightarrow> (token list \<times> lexmode) option" where
  "lex_unicode acc ds c =
     (case hexDigit c of
        None \<Rightarrow> None
      | Some h \<Rightarrow>
          if length ds < 3 then Some ([], LUnicode acc (ds @ [h]))
          else Some ([], LString (acc @ [of_nat (fold (\<lambda>d v. 16 * v + d) (ds @ [h]) 0)])))"

fun lex_step :: "lexmode \<Rightarrow> 16 word \<Rightarrow> (token list \<times> lexmode) option" where
  "lex_step LStart c = lex_start c"
| "lex_step (LString acc) c =
     (if c = dquote then Some ([TValue (JString acc)], LStart)
      else if c = backslash then Some ([], LEscape acc)
      else if c < 0x20 then None
      else Some ([], LString (acc @ [c])))"
| "lex_step (LEscape acc) c = lex_escape acc c"
| "lex_step (LUnicode acc ds) c = lex_unicode acc ds c"
| "lex_step (LNumber lit) c =
     (if isNumberUnit c then Some ([], LNumber (lit @ [c]))
      else (case close_number lit of
              None \<Rightarrow> None
            | Some t \<Rightarrow> (case lex_start c of
                          None \<Rightarrow> None
                        | Some (ts, m) \<Rightarrow> Some (t # ts, m))))"
| "lex_step (LWord w) c =
     (if isLetter c then Some ([], LWord (w @ [c]))
      else (case close_word w of
              None \<Rightarrow> None
            | Some t \<Rightarrow> (case lex_start c of
                          None \<Rightarrow> None
                        | Some (ts, m) \<Rightarrow> Some (t # ts, m))))"

fun lex_end :: "lexmode \<Rightarrow> token list option" where
  "lex_end LStart = Some []"
| "lex_end (LNumber lit) = map_option (\<lambda>t. [t]) (close_number lit)"
| "lex_end (LWord w) = map_option (\<lambda>t. [t]) (close_word w)"
| "lex_end (LString acc) = None"
| "lex_end (LEscape acc) = None"
| "lex_end (LUnicode acc ds) = None"

fun lex :: "lexmode \<Rightarrow> jsstring \<Rightarrow> token list option" where
  "lex m [] = lex_end m"
| "lex m (c # cs) =
     (case lex_step m c of
        None \<Rightarrow> None
      | Some (ts, m') \<Rightarrow> map_option (\<lambda>rest. ts @ rest) (lex m' cs))"

subsection \<open>Parser\<close>

datatype frame =
    FArray "json list"
  | FObject "(jsstring \<times> json) list" "jsstring option"

datatype pmode = PValue | PValueOrEnd | PKeyOrEnd | PKey | PColon | PAfter | PDone json

text \<open>A finished value goes to the enclosing container, or ends the parse.\<close>

fun deliver :: "json \<Rightarrow> frame list \<Rightarrow> (pmode \<times> frame list) option" where
  "deliver v [] = Some (PDone v, [])"
| "deliver v (FArray acc # st) = Some (PAfter, FArray (acc @ [v]) # st)"
| "deliver v (FObject acc (Some k) # st) = Some (PAfter, FObject (acc @ [(k, v)]) None # st)"
| "deliver v (FObject acc None # st) = None"

fun parse_value :: "token \<Rightarrow> frame list \<Rightarrow> (pmode \<times> frame list) option" where
  "parse_value (TValue v) st = deliver v st"
| "parse_value TLBracket st = Some (PValueOrEnd, FArray [] # st)"
| "parse_value TLBrace st = Some (PKeyOrEnd, FObject [] None # st)"
| "parse_value t st = None"

fun parse_key :: "token \<Rightarrow> frame list \<Rightarrow> (pmode \<times> frame list) option" where
  "parse_key (TValue (JString k)) (FObject acc None # st) = Some (PColon, FObject acc (Some k) # st)"
| "parse_key t st = None"

fun parse_after :: "token \<Rightarrow> frame list \<Rightarrow> (pmode \<times> frame list) option" where
  "parse_after TComma (FArray acc # st) = Some (PValue, FArray acc # st)"
| "parse_after TComma (FObject acc None # st) = Some (PKey, FObject acc None # st)"
| "parse_after TRBracket (FArray acc # st) = deliver (JArray acc) st"
| "parse_after TRBrace (FObject acc None # st) = deliver (JObject acc) st"
| "parse_after t st = None"

fun parse_step :: "pmode \<Rightarrow> token \<Rightarrow> frame list \<Rightarrow> (pmode \<times> frame list) option" where
  "parse_step PValue t st = parse_value t st"
| "parse_step PValueOrEnd t st =
     (if t = TRBracket then (case st of FArray acc # r \<Rightarrow> deliver (JArray acc) r | _ \<Rightarrow> None)
      else parse_value t st)"
| "parse_step PKeyOrEnd t st =
     (if t = TRBrace then (case st of FObject acc None # r \<Rightarrow> deliver (JObject acc) r | _ \<Rightarrow> None)
      else parse_key t st)"
| "parse_step PKey t st = parse_key t st"
| "parse_step PColon t st = (if t = TColon then Some (PValue, st) else None)"
| "parse_step PAfter t st = parse_after t st"
| "parse_step (PDone v) t st = None"

fun parse_tokens :: "pmode \<Rightarrow> frame list \<Rightarrow> token list \<Rightarrow> json option" where
  "parse_tokens m st [] = (case m of PDone v \<Rightarrow> Some v | _ \<Rightarrow> None)"
| "parse_tokens m st (t # ts) =
     (case parse_step m t st of
        None \<Rightarrow> None
      | Some (m', st') \<Rightarrow> parse_tokens m' st' ts)"

text \<open>\<^verbatim>\<open>JSON.parse(text)\<close>; \<open>None\<close> is the SyntaxError it throws.\<close>

definition JSON_parse :: "jsstring \<Rightarrow> json option" where
  "JSON_parse text = (case lex LStart text of None \<Rightarrow> None
                      | Some ts \<Rightarrow> parse_tokens PValue [] ts)"

section \<open>Values read from a parsed payload\<close>

text \<open>
  \<open>getProp v k\<close> is the property read \<^verbatim>\<open>v.k\<close> on a value that is not \<^verbatim>\<open>null\<close>, for the
  keys the source reads (\<^verbatim>\<open>error\<close>, \<^verbatim>\<open>message\<close>, \<^verbatim>\<open>status\<close>), none of which is a
  property of a prototype; \<open>None\<close> is \<^verbatim>\<open>undefined\<close>. Of two members with the same key
  the later one is the property.
\<close>

fun getProp :: "json \<Rightarrow> jsstring \<Rightarrow> json option" where
  "getProp (JObject members) k = map_of (rev members) k"
| "getProp v k = None"

fun truthy :: "json \<Rightarrow> bool" where
  "truthy JNull = False"
| "truthy (JBool b) = b"
| "truthy (JNumber negative x) = (if x = Zero then False else True)"
| "truthy (JString s) = (if s = [] then False else True)"
| "truthy (JArray xs) = True"
| "truthy (JObject members) = True"

text \<open>
  \<open>join parts\<close> puts a comma between the parts; \<open>None\<close> is a part whose conversion
  threw.
\<close>

fun join :: "jsstring option list \<Rightarrow> jsstring option" where
  "join [] = Some []"
| "join [p] = p"
| "join (p # q # ps) =
     (case p of None \<Rightarrow> None
      | Some a \<Rightarrow> (case join (q # ps) of None \<Rightarrow> None | Some b \<Rightarrow> Some (a @ js '','' @ b)))"

text \<open>
  The conversion to a string inside a template literal; \<open>None\<close> is the TypeError
  thrown for an object whose own \<^verbatim>\<open>toString\<close> member hides the inherited method.
\<close>

fun toStringJS :: "json \<Rightarrow> jsstring option" where
  "toStringJS JNull = Some (js ''null'')"
| "toStringJS (JBool b) = Some (if b then js ''true'' else js ''false'')"
| "toStringJS (JNumber negative x) = Some (Number_toString negative x)"
| "toStringJS (JString s) = Some s"
| "toStringJS (JArray xs) =
     join (map (\<lambda>x. if x = JNull then Some [] else toStringJS x) xs)"
| "toStringJS (JObject members) =
     (case map_of members (js ''toString'') of
        None \<Rightarrow> Some (js ''[object Object]'')
      | Some m \<Rightarrow> None)"

section \<open>services/geminiService.ts: handleGeminiError and withRetries\<close>

definition MAX_RETRIES :: nat where
  "MAX_RETRIES = 3"

text \<open>
  A value caught by \<^verbatim>\<open>catch (error)\<close>: an instance of \<^verbatim>\<open>Error\<close> with its message, or
  anything else.
\<close>

datatype thrown = Error jsstring | NotAnError

definition msg_unexpected :: jsstring where
  "msg_unexpected = js ''We have encountered problems in generating your assets. An unexpected error occurred. Please try again.''"

definition msg_quota :: jsstring where
  "msg_quota = js ''We have encountered problems in generating your assets. Error: API Quota Exceeded (out of tokens). For details, visit https://ai.google.dev/gemini-api/docs/rate-limits''"

definition msg_safety :: jsstring where
  "msg_safety = js ''We have encountered problems in generating your assets. Error Code: SAFETY_VIOLATION. Message: Request blocked due to content policy.''"

definition msg_provider :: "jsstring \<Rightarrow> jsstring \<Rightarrow> jsstring" where
  "msg_provider errorCode keyMessage =
     js ''We have encountered problems in generating your assets. Error Code: '' @ errorCode
       @ js ''. Message: '' @ keyMessage"

definition msg_raw :: "jsstring \<Rightarrow> jsstring" where
  "msg_raw rawMessage = js ''We have encountered problems in generating your assets: '' @ rawMessage"

text \<open>
  \<^verbatim>\<open>rawMessage.match(/{.*}/s)\<close>: the match starts at the first opening brace and, the
  star being greedy and the dot matching every code unit, ends at the last closing
  brace after it. \<open>None\<close> is \<^verbatim>\<open>null\<close>, otherwise the result is \<^verbatim>\<open>jsonMatch[0]\<close>.
\<close>

definition jsonMatch :: "jsstring \<Rightarrow> jsstring option" where
  "jsonMatch rawMessage =
     (case dropWhile (\<lambda>c. c \<noteq> of_char CHR ''{'') rawMessage of
        [] \<Rightarrow> None
      | b # u \<Rightarrow>
          if of_char CHR ''}'' \<in> set u
          then Some (b # rev (dropWhile (\<lambda>c. c \<noteq> of_char CHR ''}'') (rev u)))
          else None)"

text \<open>
  The statements under \<^verbatim>\<open>if (parsedError && parsedError.message)\<close>, given the two values.
  The result is the new \<^verbatim>\<open>finalMessage\<close>; \<open>None\<close> is a TypeError thrown on the way
  (\<^verbatim>\<open>toLowerCase\<close> of a message that is not a string, or a status with no string form).
\<close>

definition classify :: "json \<Rightarrow> json \<Rightarrow> jsstring option" where
  "classify parsedError keyMessage =
     (let errorCode = (case getProp parsedError (js ''status'') of
                         None \<Rightarrow> JString (js ''N/A'')
                       | Some st \<Rightarrow> if truthy st then st else JString (js ''N/A''))
      in if errorCode = JString (js ''RESOURCE_EXHAUSTED'') then Some msg_quota
         else (case keyMessage of
                 JString km \<Rightarrow>
                   if toLowerCase_includes_safety km then Some msg_safety
                   else (case toStringJS errorCode of
                           None \<Rightarrow> None
                         | Some ec \<Rightarrow> Some (msg_provider ec km))
               | JNull \<Rightarrow> None
               | JBool b \<Rightarrow> None
               | JNumber negative x \<Rightarrow> None
               | JArray xs \<Rightarrow> None
               | JObject members \<Rightarrow> None))"

text \<open>
  The body of the \<^verbatim>\<open>try\<close> block, given the initial \<^verbatim>\<open>finalMessage\<close>. \<open>None\<close> is an
  exception thrown inside it: the SyntaxError of \<^verbatim>\<open>JSON.parse\<close>, the TypeError of
  reading \<^verbatim>\<open>.error\<close> of \<^verbatim>\<open>null\<close>, or one from \<open>classify\<close>.
\<close>

definition try_parse :: "jsstring \<Rightarrow> jsstring \<Rightarrow> jsstring option" where
  "try_parse finalMessage jsonText =
     (case JSON_parse jsonText of
        None \<Rightarrow> None
      | Some parsed \<Rightarrow>
          if parsed = JNull then None
          else (case getProp parsed (js ''error'') of
                  None \<Rightarrow> Some finalMessage
                | Some parsedError \<Rightarrow>
                    if truthy parsedError
                    then (case getProp parsedError (js ''message'') of
                            None \<Rightarrow> Some finalMessage
                          | Some keyMessage \<Rightarrow>
                              if truthy keyMessage then classify parsedError keyMessage
                              else Some finalMessage)
                    else Some finalMessage))"

text \<open>
  \<^verbatim>\<open>handleGeminiError\<close> never returns: it always throws \<^verbatim>\<open>new Error(finalMessage)\<close>. The
  model returns that message. The \<^verbatim>\<open>catch\<close> inside it only logs, so an exception of
  the \<^verbatim>\<open>try\<close> block leaves \<^verbatim>\<open>finalMessage\<close> at its initial value. Console output is not
  modelled.
\<close>

definition handleGeminiError :: "thrown \<Rightarrow> jsstring \<Rightarrow> jsstring" where
  "handleGeminiError error context =
     (case error of
        NotAnError \<Rightarrow> msg_unexpected
      | Error rawMessage \<Rightarrow>
          (case jsonMatch rawMessage of
             Some jsonText \<Rightarrow>
               (case try_parse msg_unexpected jsonText of
                  None \<Rightarrow> msg_unexpected
                | Some finalMessage \<Rightarrow> finalMessage)
           | None \<Rightarrow> msg_raw rawMessage))"

text \<open>
  An asynchronous operation without arguments is a function on the state of the world
  it acts on: it returns how it settled (\<open>Inl\<close> the value it rejected with) and the new
  state. A promise returned by the service settles as \<open>Inl\<close> the message of the Error
  it rejects with, or \<open>Inr\<close> its value.
\<close>

type_synonym ('s, 'a) apiCall = "'s \<Rightarrow> (thrown + 'a) \<times> 's"

text \<open>
  One turn of the \<^verbatim>\<open>for\<close> loop of \<^verbatim>\<open>withRetries\<close> at index \<open>i\<close>, once \<^verbatim>\<open>apiCall()\<close> has
  settled: return the value, throw what \<open>handleGeminiError\<close> throws, or go on.
\<close>

datatype 'a turn = Return 'a | Throw jsstring | Continue

definition attempt :: "nat \<Rightarrow> jsstring \<Rightarrow> thrown + 'a \<Rightarrow> 'a turn" where
  "attempt i context settled =
     (case settled of
        Inr v \<Rightarrow> Return v
      | Inl error \<Rightarrow>
          if i = MAX_RETRIES - 1 then Throw (handleGeminiError error context)
          else Continue)"

definition msg_exhausted :: "jsstring \<Rightarrow> jsstring" where
  "msg_exhausted context =
     js ''Operation failed for '' @ context @ js '' after '' @ showNat MAX_RETRIES
       @ js '' attempts.''"

function withRetries_from ::
  "('s, 'a) apiCall \<Rightarrow> jsstring \<Rightarrow> nat \<Rightarrow> 's \<Rightarrow> (jsstring + 'a) \<times> 's" where
  "withRetries_from apiCall context i s =
     (if i < MAX_RETRIES
      then (case apiCall s of
              (settled, s') \<Rightarrow>
                (case attempt i context settled of
                   Return v \<Rightarrow> (Inr v, s')
                 | Throw m \<Rightarrow> (Inl m, s')
                 | Continue \<Rightarrow> withRetries_from apiCall context (i + 1) s'))
      else (Inl (msg_exhausted context), s))"
  by pat_completeness auto
termination
  by (relation "measure (\<lambda>(apiCall, context, i, s). MAX_RETRIES - i)") auto

declare withRetries_from.simps [simp del]

definition withRetries :: "('s, 'a) apiCall \<Rightarrow> jsstring \<Rightarrow> 's \<Rightarrow> (jsstring + 'a) \<times> 's" where
  "withRetries apiCall context s = withRetries_from apiCall context 0 s"

text \<open>
  To speak of the invocations of an operation: the state after \<open>n\<close> invocations in a
  row, how invocation \<open>n + 1\<close> settles, and the same operation with a counter of its
  invocations beside its state.
\<close>

fun after_calls :: "('s, 'a) apiCall \<Rightarrow> 's \<Rightarrow> nat \<Rightarrow> 's" where
  "after_calls apiCall s 0 = s"
| "after_calls apiCall s (Suc n) = snd (apiCall (after_calls apiCall s n))"

definition settles :: "('s, 'a) apiCall \<Rightarrow> 's \<Rightarrow> nat \<Rightarrow> thrown + 'a" where
  "settles apiCall s n = fst (apiCall (after_calls apiCall s n))"

definition counting :: "('s, 'a) apiCall \<Rightarrow> ('s \<times> nat, 'a) apiCall" where
  "counting apiCall = (\<lambda>(s, n). case apiCall s of (settled, s') \<Rightarrow> (settled, (s', Suc n)))"

section \<open>services/geminiService.ts: the provider and the generation calls\<close>

text \<open>
  Modelled from the spec: the declarations of \<^verbatim>\<open>ImageData\<close> and \<^verbatim>\<open>AdCopy\<close>, whose file
  (\<^verbatim>\<open>types.ts\<close>) is not among the sources. The fields are those of the spec's data model
  (image asset, ad-copy triple) under the names the service and the application use.
\<close>

record ImageData =
  data :: jsstring
  mimeType :: jsstring

record AdCopy =
  headline :: jsstring
  description :: jsstring
  cta :: jsstring

text \<open>
  The response of \<^verbatim>\<open>ai.models.generateContent\<close>, as far as the service reads it:
  \<^verbatim>\<open>response.candidates?.[0]?.content?.parts?.find(p => p.inlineData)\<close>. Every level may be
  \<^verbatim>\<open>undefined\<close> (\<open>None\<close>).
\<close>

record Blob =
  blob_data :: "jsstring option"
  blob_mimeType :: "jsstring option"

record Part =
  inlineData :: "Blob option"
  part_text :: "jsstring option"

record Content =
  parts :: "Part list option"

record Candidate =
  content :: "Content option"

record Response =
  candidates :: "Candidate list option"

text \<open>
  A request to the provider. The source sends a model name, a list of parts and a
  configuration; the parts are the images and a prompt text that is a fixed template
  over the arguments. The model keeps the arguments in place of the text built from
  them: \<open>AdRequest\<close> is the request of \<^verbatim>\<open>generateSingleAd\<close> (product, style and logo
  image, copy, creative direction, aspect ratio), \<open>EditRequest\<close> the one of \<^verbatim>\<open>editAd\<close>
  (media type and data of the base image, prompt).
\<close>

datatype Request =
    AdRequest ImageData ImageData ImageData AdCopy jsstring jsstring
  | EditRequest jsstring jsstring jsstring

text \<open>
  The provider is outside the repository: a parameter. A call acts on the state of
  the world and settles with a response or with a thrown value.
\<close>

type_synonym 's provider = "Request \<Rightarrow> 's \<Rightarrow> (thrown + Response) \<times> 's"

definition findImagePart :: "Response \<Rightarrow> Part option" where
  "findImagePart response =
     (case candidates response of
        None \<Rightarrow> None
      | Some cs \<Rightarrow>
          (case cs of
             [] \<Rightarrow> None
           | c # rest \<Rightarrow>
               (case content c of
                  None \<Rightarrow> None
                | Some ct \<Rightarrow>
                    (case parts ct of
                       None \<Rightarrow> None
                     | Some ps \<Rightarrow> find (\<lambda>p. case inlineData p of None \<Rightarrow> False | Some b \<Rightarrow> True) ps))))"

text \<open>A value inside a template literal; \<^verbatim>\<open>undefined\<close> prints as its name.\<close>

definition template :: "jsstring option \<Rightarrow> jsstring" where
  "template v = (case v of None \<Rightarrow> js ''undefined'' | Some s \<Rightarrow> s)"

definition dataUrl :: "Blob \<Rightarrow> jsstring" where
  "dataUrl b =
     js ''data:'' @ template (blob_mimeType b) @ js '';base64,'' @ template (blob_data b)"

text \<open>
  The body of the operation handed to \<open>withRetries\<close>, after the provider call has
  settled: the data URL of the first image part, or the Error thrown when there is
  none. A failure of the provider call itself passes through.
\<close>

definition imageOrThrow :: "jsstring \<Rightarrow> thrown + Response \<Rightarrow> thrown + jsstring" where
  "imageOrThrow failure settled =
     (case settled of
        Inl e \<Rightarrow> Inl e
      | Inr response \<Rightarrow>
          (case findImagePart response of
             None \<Rightarrow> Inl (Error failure)
           | Some p \<Rightarrow>
               (case inlineData p of
                  None \<Rightarrow> Inl (Error failure)
                | Some b \<Rightarrow> Inr (dataUrl b))))"

definition msg_no_image :: jsstring where
  "msg_no_image = js ''Model response did not contain a valid image part.''"

definition msg_no_image_edit :: jsstring where
  "msg_no_image_edit = js ''Model response did not contain a valid image part for the edit.''"

definition msg_invalid_base :: jsstring where
  "msg_invalid_base = js ''Invalid base image data URL format.''"

definition provider_call :: "'s provider \<Rightarrow> Request \<Rightarrow> jsstring \<Rightarrow> ('s, jsstring) apiCall" where
  "provider_call provider request failure =
     (\<lambda>s. case provider request s of (settled, s') \<Rightarrow> (imageOrThrow failure settled, s'))"

text \<open>The three creative directions, in their order.\<close>

definition styleVariations :: "jsstring list" where
  \<open>styleVariations =
     [js ''**Image-Centric Focus:** The Product/Lifestyle Photo is the undisputed hero. Create a clean, minimalist layout where the image dominates. Prioritize a full-bleed approach, seamlessly extending the photo (outpainting) to fill the entire canvas if it's a lifestyle shot. All other elements (text, logo) must be positioned with subtlety to support the image, not compete with it. The final feel should be premium and uncluttered.'',
      js ''**Bold Typographic Focus:** Create a dynamic, modern, and asymmetrical layout where typography is a key artistic element. The design should be a balanced interplay between the Product/Lifestyle Photo (ASSET 1) and large, impactful text. Instead of just filling space, use color blocks from the brand palette intelligently as design accents or to create a clear separation and hierarchy between text and image areas. The result should feel energetic and deliberate, not random.'',
      js (''**High-Fidelity Template Adaptation:** Your primary goal is to recreate the "Brand Style Guide/Ad Template" (ASSET 2) using the provided new assets.''
         @ [CHR 0x0A] @
       ''    1.  Analyze the template's layout: the positioning, scale, and alignment of its core components (image areas, text area, logo placement).''
         @ [CHR 0x0A] @
       ''    2.  **CRITICAL** Construct a new ad that mirrors this *structure and style*, but is replaced entirely with the new assets (ASSET 1 + ASSET 3 + user provided Ad Copy). REMOVE AND DO NOT INCLUDE any original text or ad copy, logo or images from the template (ASSET 2).''
         @ [CHR 0x0A] @
       ''    3.  The final ad should still feel like it perfectly fits within the brand's established design system.'')]\<close>

definition generateSingleAd_context :: "jsstring \<Rightarrow> jsstring" where
  "generateSingleAd_context creativeDirection =
     js ''ad generation with style '' @ [0x27] @ creativeDirection @ [0x27]"

definition generateSingleAd ::
  "'s provider \<Rightarrow> ImageData \<Rightarrow> ImageData \<Rightarrow> ImageData \<Rightarrow> AdCopy \<Rightarrow> jsstring \<Rightarrow> jsstring
     \<Rightarrow> 's \<Rightarrow> (jsstring + jsstring) \<times> 's" where
  "generateSingleAd provider productImage styleImage logoImage adCopy creativeDirection aspectRatio =
     withRetries
       (provider_call provider
          (AdRequest productImage styleImage logoImage adCopy creativeDirection aspectRatio)
          msg_no_image)
       (generateSingleAd_context creativeDirection)"

text \<open>
  \<^verbatim>\<open>baseImage.match(/^data:(image\/.+);base64,(.+)$/)\<close>. Without flags the dot matches
  every code unit but a line terminator (LF, CR, U+2028 and U+2029), and the anchors
  are the ends of the string. The first group is greedy: of the places where \<^verbatim>\<open>;base64,\<close>
  stands with something on both sides, the last one splits the string. The result is
  the pair of the two groups.
\<close>

definition isLineTerminator :: "16 word \<Rightarrow> bool" where
  "isLineTerminator c = (c \<in> {0x0A, 0x0D, 0x2028, 0x2029})"

definition splitsAt :: "jsstring \<Rightarrow> nat \<Rightarrow> bool" where
  "splitsAt rest n =
     (0 < n \<and> take 8 (drop n rest) = js '';base64,'' \<and> n + 8 < length rest
      \<and> filter isLineTerminator rest = [])"

definition matchDataUrl :: "jsstring \<Rightarrow> (jsstring \<times> jsstring) option" where
  "matchDataUrl baseImage =
     (if take 11 baseImage = js ''data:image/''
      then (case find (splitsAt (drop 11 baseImage)) (rev [0..<length (drop 11 baseImage)]) of
              None \<Rightarrow> None
            | Some n \<Rightarrow> Some (js ''image/'' @ take n (drop 11 baseImage),
                              drop (n + 8) (drop 11 baseImage)))
      else None)"

definition editAd_context :: "jsstring \<Rightarrow> jsstring" where
  "editAd_context prompt = js ''ad editing with prompt: '' @ [dquote] @ prompt @ [dquote]"

text \<open>
  \<^verbatim>\<open>editAd\<close> returns a rejected promise at once for a base image that does not match,
  before \<open>withRetries\<close> is entered.
\<close>

definition editAd ::
  "'s provider \<Rightarrow> jsstring \<Rightarrow> jsstring \<Rightarrow> 's \<Rightarrow> (jsstring + jsstring) \<times> 's" where
  "editAd provider baseImage prompt s =
     (case matchDataUrl baseImage of
        None \<Rightarrow> (Inl msg_invalid_base, s)
      | Some (mime, base64) \<Rightarrow>
          withRetries (provider_call provider (EditRequest mime base64 prompt) msg_no_image_edit)
            (editAd_context prompt) s)"

section \<open>services/geminiService.ts: generateAds\<close>

text \<open>
  \<^verbatim>\<open>generateAds\<close> starts one \<^verbatim>\<open>generateSingleAd\<close> per creative direction without
  awaiting any, then awaits \<^verbatim>\<open>Promise.all\<close> of their promises. The calls are in flight
  together and the provider answers them in an order of its choosing. The model is a
  transition system: an event \<open>(request, settled)\<close> is the provider answering the call
  in flight that carries \<open>request\<close>; the \<open>withRetries\<close> loop that made the call then
  runs to its next provider call or to its end.
\<close>

datatype 'a promise = Pending | Fulfilled 'a | Rejected jsstring

text \<open>
  A \<open>withRetries\<close> loop between two events: awaiting the operation at index \<open>i\<close>, or
  settled.
\<close>

datatype 'a progress = InFlight nat | Settled "jsstring + 'a"

definition withRetries_enter :: "jsstring \<Rightarrow> nat \<Rightarrow> 'a progress" where
  "withRetries_enter context i =
     (if i < MAX_RETRIES then InFlight i else Settled (Inl (msg_exhausted context)))"

definition withRetries_resume :: "jsstring \<Rightarrow> nat \<Rightarrow> thrown + 'a \<Rightarrow> 'a progress" where
  "withRetries_resume context i settled =
     (case attempt i context settled of
        Return v \<Rightarrow> Settled (Inr v)
      | Throw m \<Rightarrow> Settled (Inl m)
      | Continue \<Rightarrow> withRetries_enter context (i + 1))"

fun promise_of :: "'a progress \<Rightarrow> 'a promise" where
  "promise_of (InFlight i) = Pending"
| "promise_of (Settled (Inr v)) = Fulfilled v"
| "promise_of (Settled (Inl m)) = Rejected m"

text \<open>
  A call of \<^verbatim>\<open>generateSingleAd\<close> under way: the request its operation sends to the
  provider at every attempt, the context of its \<open>withRetries\<close>, and where the loop is.
\<close>

record Task =
  task_request :: Request
  task_context :: jsstring
  task_progress :: "jsstring progress"

definition generateSingleAd_begin ::
  "ImageData \<Rightarrow> ImageData \<Rightarrow> ImageData \<Rightarrow> AdCopy \<Rightarrow> jsstring \<Rightarrow> jsstring \<Rightarrow> Task" where
  "generateSingleAd_begin productImage styleImage logoImage adCopy creativeDirection aspectRatio =
     \<lparr>task_request = AdRequest productImage styleImage logoImage adCopy creativeDirection aspectRatio,
      task_context = generateSingleAd_context creativeDirection,
      task_progress = withRetries_enter (generateSingleAd_context creativeDirection) 0\<rparr>"

text \<open>The provider call of a task settles: the loop of the task goes on from there.\<close>

definition task_settle :: "thrown + Response \<Rightarrow> Task \<Rightarrow> Task" where
  "task_settle settled t =
     (case task_progress t of
        InFlight i \<Rightarrow>
          t\<lparr>task_progress := withRetries_resume (task_context t) i (imageOrThrow msg_no_image settled)\<rparr>
      | Settled r \<Rightarrow> t)"

text \<open>
  An event reaches the task whose request it answers. The requests of the tasks of
  \<^verbatim>\<open>generateAds\<close> differ in their creative direction, so an event reaches one of them.
\<close>

definition task_react :: "Request \<times> (thrown + Response) \<Rightarrow> Task \<Rightarrow> Task" where
  "task_react event t =
     (case event of
        (request, settled) \<Rightarrow> if task_request t = request then task_settle settled t else t)"

text \<open>
  \<^verbatim>\<open>Promise.all\<close>: rejected with the reason of the first promise seen rejected;
  fulfilled, once every promise is, with the values in the order of the promises; once
  settled it stays as it is.
\<close>

fun values_of :: "'a promise list \<Rightarrow> 'a list option" where
  "values_of [] = Some []"
| "values_of (Fulfilled v # ps) = map_option (\<lambda>vs. v # vs) (values_of ps)"
| "values_of (Pending # ps) = None"
| "values_of (Rejected m # ps) = None"

fun first_rejected :: "'a promise list \<Rightarrow> jsstring option" where
  "first_rejected [] = None"
| "first_rejected (Rejected m # ps) = Some m"
| "first_rejected (Pending # ps) = first_rejected ps"
| "first_rejected (Fulfilled v # ps) = first_rejected ps"

definition Promise_all_begin :: "'a promise list \<Rightarrow> 'a list promise" where
  "Promise_all_begin ps =
     (case first_rejected ps of
        Some m \<Rightarrow> Rejected m
      | None \<Rightarrow> (case values_of ps of Some vs \<Rightarrow> Fulfilled vs | None \<Rightarrow> Pending))"

text \<open>
  \<open>Promise_all_react joined ps\<close>: an event has been handled, the promises now being
  \<open>ps\<close>. While \<open>joined\<close> is pending none of them was rejected before the event, so a
  rejected one among \<open>ps\<close> is the one the event rejected.
\<close>

definition Promise_all_react :: "'a list promise \<Rightarrow> 'a promise list \<Rightarrow> 'a list promise" where
  "Promise_all_react joined ps =
     (case joined of
        Pending \<Rightarrow> Promise_all_begin ps
      | Fulfilled vs \<Rightarrow> Fulfilled vs
      | Rejected m \<Rightarrow> Rejected m)"

record Run =
  tasks :: "Task list"
  joined :: "jsstring list promise"

definition promises :: "Run \<Rightarrow> jsstring promise list" where
  "promises run = map (\<lambda>t. promise_of (task_progress t)) (tasks run)"

definition generateAds_begin ::
  "ImageData \<Rightarrow> ImageData \<Rightarrow> ImageData \<Rightarrow> AdCopy \<Rightarrow> jsstring \<Rightarrow> Run" where
  "generateAds_begin productImage styleImage logoImage adCopy aspectRatio =
     (let adPromises = map (\<lambda>variation. generateSingleAd_begin productImage styleImage logoImage
                                         adCopy variation aspectRatio) styleVariations
      in \<lparr>tasks = adPromises,
          joined = Promise_all_begin (map (\<lambda>t. promise_of (task_progress t)) adPromises)\<rparr>)"

definition generateAds_step :: "Request \<times> (thrown + Response) \<Rightarrow> Run \<Rightarrow> Run" where
  "generateAds_step event run =
     (let ts = map (task_react event) (tasks run)
      in \<lparr>tasks = ts,
          joined = Promise_all_react (joined run) (map (\<lambda>t. promise_of (task_progress t)) ts)\<rparr>)"

text \<open>
  The promise \<^verbatim>\<open>generateAds\<close> returns, after the events so far. Its \<^verbatim>\<open>catch\<close> throws the
  error it caught again, so the promise settles as \<^verbatim>\<open>Promise.all\<close> does.
\<close>

definition generateAds_after ::
  "(Request \<times> (thrown + Response)) list \<Rightarrow> ImageData \<Rightarrow> ImageData \<Rightarrow> ImageData \<Rightarrow> AdCopy
     \<Rightarrow> jsstring \<Rightarrow> Run" where
  "generateAds_after events productImage styleImage logoImage adCopy aspectRatio =
     fold generateAds_step events (generateAds_begin productImage styleImage logoImage adCopy aspectRatio)"

definition generateAds ::
  "(Request \<times> (thrown + Response)) list \<Rightarrow> ImageData \<Rightarrow> ImageData \<Rightarrow> ImageData \<Rightarrow> AdCopy
     \<Rightarrow> jsstring \<Rightarrow> jsstring list promise" where
  "generateAds events productImage styleImage logoImage adCopy aspectRatio =
     joined (generateAds_after events productImage styleImage logoImage adCopy aspectRatio)"

text \<open>The answers, among the events of a run, to the calls that carry a request.\<close>

definition events_of ::
  "Request \<Rightarrow> (Request \<times> (thrown + Response)) list \<Rightarrow> (thrown + Response) list" where
  "events_of request events = map snd (filter (\<lambda>e. fst e = request) events)"

text \<open>
  The call for direction \<open>i\<close> taken alone: \<^verbatim>\<open>generateSingleAd\<close> with the \<open>i\<close>-th creative
  direction, its provider calls answered as the events answer the request it sends.
  \<open>direction_request\<close> is that request, \<open>direction_call\<close> the promise of the call.
\<close>

definition direction_request ::
  "ImageData \<Rightarrow> ImageData \<Rightarrow> ImageData \<Rightarrow> AdCopy \<Rightarrow> jsstring \<Rightarrow> nat \<Rightarrow> Request" where
  "direction_request p st l copy ar i = AdRequest p st l copy (styleVariations ! i) ar"

definition direction_call ::
  "(Request \<times> (thrown + Response)) list \<Rightarrow> ImageData \<Rightarrow> ImageData \<Rightarrow> ImageData \<Rightarrow> AdCopy
     \<Rightarrow> jsstring \<Rightarrow> nat \<Rightarrow> jsstring promise" where
  "direction_call events p st l copy ar i =
     promise_of (task_progress
       (fold task_settle (events_of (direction_request p st l copy ar i) events)
          (generateSingleAd_begin p st l copy (styleVariations ! i) ar)))"

definition isRejected :: "'a promise \<Rightarrow> bool" where
  "isRejected p = (case p of Rejected m \<Rightarrow> True | Pending \<Rightarrow> False | Fulfilled v \<Rightarrow> False)"

text \<open>The relation that \<^verbatim>\<open>Promise.all\<close> keeps between its promise and those it joins.\<close>

definition joined_agrees :: "Run \<Rightarrow> bool" where
  "joined_agrees run =
     (case joined run of
        Pending \<Rightarrow> first_rejected (promises run) = None \<and> values_of (promises run) = None
      | Fulfilled vs \<Rightarrow> values_of (promises run) = Some vs
      | Rejected m \<Rightarrow> Rejected m \<in> set (promises run))"

section \<open>App.tsx: the state and its handlers\<close>

text \<open>
  An element of a JavaScript array of strings is a string or \<^verbatim>\<open>undefined\<close> (\<open>None\<close>): a
  read past the end is \<^verbatim>\<open>undefined\<close>, a write past the end lengthens the array.
\<close>

definition js_index :: "'a option list \<Rightarrow> nat \<Rightarrow> 'a option" where
  "js_index xs i = (if i < length xs then xs ! i else None)"

definition js_last :: "'a option list \<Rightarrow> 'a option" where
  "js_last xs = (case rev xs of [] \<Rightarrow> None | x # r \<Rightarrow> x)"

definition js_assign :: "'a option list \<Rightarrow> nat \<Rightarrow> 'a option \<Rightarrow> 'a option list" where
  "js_assign xs i v =
     (if i < length xs then xs[i := v]
      else xs @ replicate (i - length xs) None @ [v])"

record EditingAd =
  index :: nat
  originalData :: "jsstring option"
  history :: "jsstring option list"

text \<open>
  The state variables of \<^verbatim>\<open>App\<close> that the handlers below read or write. A handler
  reads the state of the render it was created in; the model runs a handler on the
  current state, every update being rendered before the next event is handled.
\<close>

record App =
  imageForAd :: "ImageData option"
  styleImage :: "ImageData option"
  logoImage :: "ImageData option"
  aspectRatio :: jsstring
  adCopy :: AdCopy
  skipAdCopy :: bool
  generatedAds :: "jsstring option list"
  isGeneratingAds :: bool
  regeneratingIndex :: "nat option"
  loadingMessage :: jsstring
  error :: "jsstring option"
  editingAd :: "EditingAd option"
  editPrompt :: jsstring
  isEditing :: bool

definition isSet :: "'a option \<Rightarrow> bool" where
  "isSet v = (case v of None \<Rightarrow> False | Some x \<Rightarrow> True)"

definition isFormValid :: "App \<Rightarrow> bool" where
  "isFormValid a =
     (isSet (imageForAd a) \<and> isSet (styleImage a) \<and> isSet (logoImage a)
      \<and> (skipAdCopy a \<or> (headline (adCopy a) \<noteq> [] \<and> description (adCopy a) \<noteq> [])))"

definition finalAdCopy :: "App \<Rightarrow> AdCopy" where
  "finalAdCopy a =
     (if skipAdCopy a then \<lparr>headline = [], description = [], cta = []\<rparr> else adCopy a)"

text \<open>
  An asynchronous handler runs to its first \<^verbatim>\<open>await\<close> when the event arrives, and from
  there when the awaited promise settles. \<open>Returned a\<close>: it ended without awaiting,
  leaving state \<open>a\<close>. \<open>Awaits a c\<close>: it left state \<open>a\<close> and awaits the call \<open>c\<close>.
\<close>

datatype 'c started = Returned App | Awaits App 'c

subsection \<open>handleSubmit\<close>

definition msg_required :: jsstring where
  "msg_required = js ''Please fill out all required fields and upload all required images.''"

definition msg_blending :: jsstring where
  "msg_blending = js ''Blending your ad milkshake... this may take a minute.''"

definition handleSubmit_begin ::
  "App \<Rightarrow> (ImageData \<times> ImageData \<times> ImageData \<times> AdCopy \<times> jsstring) started" where
  "handleSubmit_begin a =
     (if isFormValid a \<and> regeneratingIndex a = None
      then (case imageForAd a of
              None \<Rightarrow> Returned (a\<lparr>error := Some msg_required\<rparr>)
            | Some productImage \<Rightarrow>
                (case styleImage a of
                   None \<Rightarrow> Returned (a\<lparr>error := Some msg_required\<rparr>)
                 | Some style \<Rightarrow>
                     (case logoImage a of
                        None \<Rightarrow> Returned (a\<lparr>error := Some msg_required\<rparr>)
                      | Some logo \<Rightarrow>
                          Awaits (a\<lparr>isGeneratingAds := True, loadingMessage := msg_blending,
                                    error := None, generatedAds := []\<rparr>)
                            (productImage, style, logo, finalAdCopy a, aspectRatio a))))
      else Returned (a\<lparr>error := Some msg_required\<rparr>))"

definition handleSubmit_end :: "jsstring + jsstring list \<Rightarrow> App \<Rightarrow> App" where
  "handleSubmit_end settled a =
     (case settled of
        Inr ads \<Rightarrow> a\<lparr>generatedAds := map Some ads, isGeneratingAds := False, loadingMessage := []\<rparr>
      | Inl m \<Rightarrow> a\<lparr>error := Some m, isGeneratingAds := False, loadingMessage := []\<rparr>)"

subsection \<open>handleRegenerateAd\<close>

definition msg_invalid_index :: "nat \<Rightarrow> jsstring" where
  "msg_invalid_index i = js ''Invalid creative direction index: '' @ showNat i"

definition handleRegenerateAd_begin ::
  "nat \<Rightarrow> App \<Rightarrow> (ImageData \<times> ImageData \<times> ImageData \<times> AdCopy \<times> jsstring \<times> jsstring) started" where
  "handleRegenerateAd_begin i a =
     (if isGeneratingAds a then Returned a
      else (case regeneratingIndex a of
              Some r \<Rightarrow> Returned a
            | None \<Rightarrow>
               (case imageForAd a of
                  None \<Rightarrow> Returned a
                | Some productImage \<Rightarrow>
                    (case styleImage a of
                       None \<Rightarrow> Returned a
                     | Some style \<Rightarrow>
                         (case logoImage a of
                            None \<Rightarrow> Returned a
                          | Some logo \<Rightarrow>
                              if i < length styleVariations \<and> styleVariations ! i \<noteq> []
                              then Awaits (a\<lparr>regeneratingIndex := Some i, error := None\<rparr>)
                                     (productImage, style, logo, finalAdCopy a,
                                      styleVariations ! i, aspectRatio a)
                              else Returned (a\<lparr>regeneratingIndex := None,
                                               error := Some (msg_invalid_index i)\<rparr>))))))"

definition handleRegenerateAd_end :: "nat \<Rightarrow> jsstring + jsstring \<Rightarrow> App \<Rightarrow> App" where
  "handleRegenerateAd_end i settled a =
     (case settled of
        Inr newAd \<Rightarrow> a\<lparr>generatedAds := js_assign (generatedAds a) i (Some newAd),
                        regeneratingIndex := None\<rparr>
      | Inl m \<Rightarrow> a\<lparr>error := Some m, regeneratingIndex := None\<rparr>)"

text \<open>The handler from the event to its end, nothing else being handled in between.\<close>

definition handleRegenerateAd :: "'s provider \<Rightarrow> nat \<Rightarrow> App \<Rightarrow> 's \<Rightarrow> App \<times> 's" where
  "handleRegenerateAd provider i a s =
     (case handleRegenerateAd_begin i a of
        Returned a' \<Rightarrow> (a', s)
      | Awaits a' c \<Rightarrow>
          (case c of
             (productImage, style, logo, copy, creativeDirection, ratio) \<Rightarrow>
               (case generateSingleAd provider productImage style logo copy creativeDirection ratio s of
                  (settled, s') \<Rightarrow> (handleRegenerateAd_end i settled a', s'))))"

subsection \<open>The edit session\<close>

definition handleSelectAdForEdit :: "nat \<Rightarrow> App \<Rightarrow> App" where
  "handleSelectAdForEdit i a =
     a\<lparr>editingAd := Some \<lparr>index = i, originalData = js_index (generatedAds a) i,
                           history = [js_index (generatedAds a) i]\<rparr>\<rparr>"

definition handleCancelEdit :: "App \<Rightarrow> App" where
  "handleCancelEdit a = a\<lparr>editingAd := None, editPrompt := [], error := None\<rparr>"

definition setEditPrompt :: "jsstring \<Rightarrow> App \<Rightarrow> App" where
  "setEditPrompt p a = a\<lparr>editPrompt := p\<rparr>"

text \<open>
  The message of the TypeError of \<^verbatim>\<open>baseImage.match\<close> on \<^verbatim>\<open>undefined\<close>, in the wording
  of V8.
\<close>

definition msg_undefined_match :: jsstring where
  "msg_undefined_match =
     js (''Cannot read properties of undefined (reading '' @ [CHR 0x27] @ ''match'' @ [CHR 0x27]
         @ '')'')"

text \<open>
  \<open>handleApplyEdit_begin\<close> awaits \<^verbatim>\<open>editAd(currentImage, editPrompt)\<close>; the call keeps
  the array and the index the handler read when it began, which it writes from when
  the edit succeeds.
\<close>

definition handleApplyEdit_begin ::
  "App \<Rightarrow> (jsstring \<times> jsstring \<times> jsstring option list \<times> nat) started" where
  "handleApplyEdit_begin a =
     (case editingAd a of
        None \<Rightarrow> Returned a
      | Some e \<Rightarrow>
          if trim (editPrompt a) = [] then Returned a
          else (case js_last (history e) of
                  None \<Rightarrow> Returned (a\<lparr>isEditing := False, error := Some msg_undefined_match\<rparr>)
                | Some currentImage \<Rightarrow>
                    Awaits (a\<lparr>isEditing := True, error := None\<rparr>)
                      (currentImage, editPrompt a, generatedAds a, index e)))"

definition handleApplyEdit_end :: "jsstring option list \<Rightarrow> nat \<Rightarrow> jsstring + jsstring \<Rightarrow> App \<Rightarrow> App" where
  "handleApplyEdit_end ads i settled a =
     (case settled of
        Inr newAdData \<Rightarrow>
          a\<lparr>generatedAds := js_assign ads i (Some newAdData),
            editingAd := (case editingAd a of
                            None \<Rightarrow> None
                          | Some prev \<Rightarrow> Some (prev\<lparr>history := history prev @ [Some newAdData]\<rparr>)),
            editPrompt := [],
            isEditing := False\<rparr>
      | Inl m \<Rightarrow> a\<lparr>error := Some m, isEditing := False\<rparr>)"

definition handleApplyEdit :: "'s provider \<Rightarrow> App \<Rightarrow> 's \<Rightarrow> App \<times> 's" where
  "handleApplyEdit provider a s =
     (case handleApplyEdit_begin a of
        Returned a' \<Rightarrow> (a', s)
      | Awaits a' c \<Rightarrow>
          (case c of
             (currentImage, prompt, ads, i) \<Rightarrow>
               (case editAd provider currentImage prompt s of
                  (settled, s') \<Rightarrow> (handleApplyEdit_end ads i settled a', s'))))"

definition handleUndoEdit :: "App \<Rightarrow> App" where
  "handleUndoEdit a =
     (case editingAd a of
        None \<Rightarrow> a
      | Some e \<Rightarrow>
          if length (history e) \<le> 1 then a
          else a\<lparr>generatedAds := js_assign (generatedAds a) (index e) (js_last (butlast (history e))),
                 editingAd := Some (e\<lparr>history := butlast (history e)\<rparr>)\<rparr>)"

definition handleRevertToOriginal :: "App \<Rightarrow> App" where
  "handleRevertToOriginal a =
     (case editingAd a of
        None \<Rightarrow> a
      | Some e \<Rightarrow>
          if length (history e) \<le> 1 then a
          else a\<lparr>generatedAds := js_assign (generatedAds a) (index e) (originalData e),
                 editingAd := Some (e\<lparr>history := [originalData e]\<rparr>)\<rparr>)"

subsection \<open>The buttons\<close>

text \<open>
  What is rendered and which buttons are disabled, from the JSX of \<^verbatim>\<open>App\<close> and of the
  results display. A click on a button that is disabled or not rendered reaches no
  handler.
\<close>

definition errorShown :: "App \<Rightarrow> bool" where
  "errorShown a = (case error a of None \<Rightarrow> False | Some m \<Rightarrow> m \<noteq> [])"

definition submitEnabled :: "App \<Rightarrow> bool" where
  "submitEnabled a = (isFormValid a \<and> \<not> isGeneratingAds a \<and> regeneratingIndex a = None)"

definition editPanelShown :: "App \<Rightarrow> bool" where
  "editPanelShown a = (\<not> isGeneratingAds a \<and> \<not> errorShown a \<and> isSet (editingAd a))"

definition applyEnabled :: "App \<Rightarrow> bool" where
  "applyEnabled a =
     (trim (editPrompt a) \<noteq> [] \<and> \<not> isEditing a \<and> \<not> isGeneratingAds a
      \<and> regeneratingIndex a = None)"

definition resultsShown :: "App \<Rightarrow> bool" where
  "resultsShown a =
     (\<not> isGeneratingAds a \<and> \<not> errorShown a \<and> editingAd a = None \<and> generatedAds a \<noteq> [])"

definition regenerateEnabled :: "App \<Rightarrow> bool" where
  "regenerateEnabled a = (regeneratingIndex a = None)"

definition clickSubmit ::
  "App \<Rightarrow> (ImageData \<times> ImageData \<times> ImageData \<times> AdCopy \<times> jsstring) started" where
  "clickSubmit a = (if submitEnabled a then handleSubmit_begin a else Returned a)"

definition clickRegenerate ::
  "nat \<Rightarrow> App \<Rightarrow> (ImageData \<times> ImageData \<times> ImageData \<times> AdCopy \<times> jsstring \<times> jsstring) started" where
  "clickRegenerate i a =
     (if resultsShown a \<and> i < length (generatedAds a) \<and> regenerateEnabled a
      then handleRegenerateAd_begin i a else Returned a)"

definition clickCancelEdit :: "App \<Rightarrow> App" where
  "clickCancelEdit a = (if editPanelShown a then handleCancelEdit a else a)"

definition clickApplyEdit_begin ::
  "App \<Rightarrow> (jsstring \<times> jsstring \<times> jsstring option list \<times> nat) started" where
  "clickApplyEdit_begin a =
     (if editPanelShown a \<and> applyEnabled a then handleApplyEdit_begin a else Returned a)"

definition clickApplyEdit :: "'s provider \<Rightarrow> App \<Rightarrow> 's \<Rightarrow> App \<times> 's" where
  "clickApplyEdit provider a s =
     (if editPanelShown a \<and> applyEnabled a then handleApplyEdit provider a s else (a, s))"

subsection \<open>Observations\<close>

text \<open>
  The history of the open edit session, the slot of the result array at an index, and
  a provider with a counter of its calls beside its state.
\<close>

definition counting_provider :: "'s provider \<Rightarrow> ('s \<times> nat) provider" where
  "counting_provider provider request =
     (\<lambda>(s, n). case provider request s of (settled, s') \<Rightarrow> (settled, (s', Suc n)))"

definition sessionHistory :: "App \<Rightarrow> jsstring option list option" where
  "sessionHistory a = map_option history (editingAd a)"

definition slot :: "App \<Rightarrow> nat \<Rightarrow> jsstring option" where
  "slot a i = js_index (generatedAds a) i"

section \<open>Concrete operations and messages\<close>

text \<open>
  The inputs at which the theorems below are tried: operations and providers on a
  counter of their calls, error messages, a state of the application with three
  results, edit sessions on it, and runs of the three generation calls.
\<close>

definition flaky :: "(nat, jsstring) apiCall" where
  "flaky n = (if n < 2 then Inl (Error (js ''timeout'')) else Inr (js ''image''), Suc n)"

definition always_fails :: "jsstring \<Rightarrow> (nat, jsstring) apiCall" where
  "always_fails m n = (Inl (Error m), Suc n)"

definition quota_payload :: jsstring where
  \<open>quota_payload = js ''{"error":{"status":"RESOURCE_EXHAUSTED","message":"x"}}''\<close>

definition quota_after_braces :: jsstring where
  \<open>quota_after_braces = js ''request {"id":7} failed: {"error":{"status":"RESOURCE_EXHAUSTED","message":"x"}}''\<close>

definition quota_nested :: jsstring where
  \<open>quota_nested = js ''{"error":{"status":"UNAVAILABLE","message":"overloaded","details":[{"error":{"status":"RESOURCE_EXHAUSTED","message":"x"}}]}}''\<close>

definition safety_plain :: jsstring where
  "safety_plain = js ''Blocked for SAFETY reasons''"

definition safety_with_quota :: jsstring where
  \<open>safety_with_quota = js ''{"error":{"status":"RESOURCE_EXHAUSTED","message":"safety quota"}}''\<close>

definition safety_structured :: jsstring where
  \<open>safety_structured = js ''got status: 400. {"error":{"code":400,"message":"Blocked by Safety filters","status":"INVALID_ARGUMENT"}}''\<close>

text \<open>A payload that writes U+4E2D as an escape.\<close>

definition safety_escaped :: jsstring where
  \<open>safety_escaped =
     js ''{"error":{"status":"X","message":"'' @ [backslash] @ js ''u4e2d SAFETY"}}''\<close>

definition png :: "jsstring \<Rightarrow> Response" where
  "png d = \<lparr>candidates = Some [\<lparr>content = Some \<lparr>parts = Some
             [\<lparr>inlineData = Some \<lparr>blob_data = Some d, blob_mimeType = Some (js ''image/png'')\<rparr>,
               part_text = None\<rparr>]\<rparr>\<rparr>]\<rparr>"

definition numbering_provider :: "nat provider" where
  "numbering_provider request n = (Inr (png (js ''AAAA'' @ showNat n)), Suc n)"

definition failing_provider :: "nat provider" where
  "failing_provider request n = (Inl (Error (js ''network down'')), Suc n)"

definition picture :: ImageData where
  "picture = \<lparr>data = js ''AAAA'', mimeType = js ''image/png''\<rparr>"

definition ready :: App where
  "ready = \<lparr>imageForAd = Some picture, styleImage = Some picture, logoImage = Some picture,
            aspectRatio = js ''1:1'',
            adCopy = \<lparr>headline = js ''Fresh'', description = js ''Cold milkshakes'', cta = js ''Buy''\<rparr>,
            skipAdCopy = False,
            generatedAds = [Some (js ''data:image/png;base64,AD0''), Some (js ''data:image/png;base64,AD1''),
                            Some (js ''data:image/png;base64,AD2'')],
            isGeneratingAds = False, regeneratingIndex = None, loadingMessage = [],
            error = None, editingAd = None, editPrompt = [], isEditing = False\<rparr>"

definition editing0 :: App where
  "editing0 = setEditPrompt (js ''make the logo bigger'') (handleSelectAdForEdit 0 ready)"

definition in_edit :: App where
  "in_edit = editing0\<lparr>isEditing := True\<rparr>"

definition blank_prompt :: App where
  "blank_prompt = setEditPrompt (js ''   '') (handleSelectAdForEdit 0 ready)"

text \<open>The request of direction \<open>i\<close> in the runs below.\<close>

definition request_of :: "nat \<Rightarrow> Request" where
  "request_of i = direction_request picture picture picture (adCopy ready) (js ''1:1'') i"

definition out_of_order :: "(Request \<times> (thrown + Response)) list" where
  "out_of_order =
     [(request_of 2, Inr (png (js ''CCCC''))), (request_of 0, Inl (Error (js ''timeout''))),
      (request_of 1, Inr (png (js ''BBBB''))), (request_of 0, Inr (png (js ''AAAA'')))]"

definition in_order :: "(Request \<times> (thrown + Response)) list" where
  "in_order =
     [(request_of 0, Inl (Error (js ''timeout''))), (request_of 0, Inr (png (js ''AAAA''))),
      (request_of 1, Inr (png (js ''BBBB''))), (request_of 2, Inr (png (js ''CCCC'')))]"

definition one_fails :: "(Request \<times> (thrown + Response)) list" where
  "one_fails =
     [(request_of 1, Inl (Error (js ''timeout''))), (request_of 2, Inr (png (js ''CCCC''))),
      (request_of 1, Inl (Error (js ''timeout''))),
      (request_of 1, Inl (Error (js ''network down''))), (request_of 0, Inr (png (js ''AAAA'')))]"

text \<open>
  Directions 1 and 2 both fail three times; the third failure of direction 2 comes
  before the third failure of direction 1.
\<close>

definition two_fail :: "(Request \<times> (thrown + Response)) list" where
  "two_fail =
     [(request_of 1, Inl (Error (js ''timeout''))), (request_of 2, Inl (Error (js ''timeout''))),
      (request_of 2, Inl (Error (js ''timeout''))), (request_of 1, Inl (Error (js ''timeout''))),
      (request_of 2, Inl (Error (js ''overloaded''))), (request_of 0, Inr (png (js ''AAAA''))),
      (request_of 1, Inl (Error (js ''network down'')))]"

section \<open>The retry wrapper and the error classifier\<close>

lemma str_includes_iff: "str_includes s t \<longleftrightarrow> (\<exists>p q. s = p @ t @ q)"
proof (induction s)
  case Nil
  then show ?case by auto
next
  case (Cons c cs)
  show ?case
  proof
    assume "str_includes (c # cs) t"
    then consider "take (length t) (c # cs) = t" | "str_includes cs t" by auto
    then show "\<exists>p q. c # cs = p @ t @ q"
    proof cases
      case 1
      then have "c # cs = [] @ t @ drop (length t) (c # cs)"
        by (metis append_Nil append_take_drop_id)
      then show ?thesis by blast
    next
      case 2
      then obtain p q where "cs = p @ t @ q" using Cons.IH by blast
      then have "c # cs = (c # p) @ t @ q" by simp
      then show ?thesis by blast
    qed
  next
    assume "\<exists>p q. c # cs = p @ t @ q"
    then obtain p q where pq: "c # cs = p @ t @ q" by blast
    show "str_includes (c # cs) t"
    proof (cases p)
      case Nil
      with pq have "take (length t) (c # cs) = t" by simp
      then show ?thesis by simp
    next
      case (Cons a p')
      with pq have "cs = p' @ t @ q" by simp
      then have "str_includes cs t" using Cons.IH by blast
      then show ?thesis by simp
    qed
  qed
qed

lemma js_append: "js (a @ b) = js a @ js b"
  by (simp add: js_def)

lemma unat_of_char: "unat (of_char c :: 16 word) = of_char c"
proof -
  have "(of_char c :: 16 word) = of_nat (of_char c)" by (simp only: of_nat_of_char)
  moreover have "(of_char c :: nat) < 2 ^ 16"
    using nat_of_char_less_256 [of c] by (simp del: nat_of_char_less_256)
  ultimately show ?thesis by (simp add: unat_of_nat del: of_nat_of_char)
qed

lemma of_char_word_eq_iff: "(of_char c :: 16 word) = of_char d \<longleftrightarrow> c = d"
proof
  assume "(of_char c :: 16 word) = of_char d"
  then have "unat (of_char c :: 16 word) = unat (of_char d :: 16 word)" by simp
  then show "c = d" by (simp only: unat_of_char of_char_eq_iff)
qed simp

lemma js_eq_iff: "js a = js b \<longleftrightarrow> a = b"
  unfolding js_def by (rule inj_map_eq_map) (simp add: inj_def of_char_word_eq_iff)

lemma js_eq_Nil_iff: "js a = [] \<longleftrightarrow> a = []"
  by (simp add: js_def)

lemmas js_simps = js_eq_iff js_eq_Nil_iff

text \<open>What it takes to run the lexer on a string that is written out.\<close>

lemmas lex_defs = js_def lex_start_def isJsonWs_def dquote_def backslash_def isDigit_def
  isLetter_def close_word_def close_number_def number_value_def number_parts_def number_sign_def
  number_fraction_def number_exponent_def isNumberUnit_def lex_escape_def lex_unicode_def
  hexDigit_def

lemmas handle_defs = handleGeminiError_def jsonMatch_def try_parse_def JSON_parse_def classify_def
  toLowerCase_includes_safety_def lowerAscii_def

lemma jsonMatch_span:
  assumes "of_char CHR ''{'' \<notin> set pre" and "of_char CHR ''}'' \<notin> set post"
  shows "jsonMatch (pre @ of_char CHR ''{'' # mid @ of_char CHR ''}'' # post) = Some (of_char CHR ''{'' # mid @ [of_char CHR ''}''])"
proof -
  have 1: "dropWhile (\<lambda>c. c \<noteq> of_char CHR ''{'') (pre @ of_char CHR ''{'' # mid @ of_char CHR ''}'' # post)
           = of_char CHR ''{'' # mid @ of_char CHR ''}'' # post"
    using assms(1) by (subst dropWhile_append2) auto
  have "dropWhile (\<lambda>c. c \<noteq> of_char CHR ''}'') (rev post @ of_char CHR ''}'' # rev mid)
        = dropWhile (\<lambda>c. c \<noteq> of_char CHR ''}'') (of_char CHR ''}'' # rev mid)"
    using assms(2) by (intro dropWhile_append2) auto
  then have 2: "rev (dropWhile (\<lambda>c. c \<noteq> of_char CHR ''}'') (rev (mid @ of_char CHR ''}'' # post))) = mid @ [of_char CHR ''}'']"
    by simp
  show ?thesis
    unfolding jsonMatch_def 1 by (simp only: 2 list.case) simp
qed

lemma jsonMatch_none:
  assumes "of_char CHR ''{'' \<notin> set m"
  shows "jsonMatch m = None"
proof -
  have "\<forall>x\<in>set m. x \<noteq> of_char CHR ''{''" using assms by auto
  then have h: "dropWhile (\<lambda>c. c \<noteq> of_char CHR ''{'') m = []"
    by (simp only: dropWhile_eq_Nil_conv)
  show ?thesis by (simp only: jsonMatch_def h list.case)
qed

lemma withRetries_cases:
  "withRetries apiCall ctx s =
     (case settles apiCall s 0 of
        Inr v \<Rightarrow> (Inr v, after_calls apiCall s 1)
      | Inl e0 \<Rightarrow>
         (case settles apiCall s 1 of
            Inr v \<Rightarrow> (Inr v, after_calls apiCall s 2)
          | Inl e1 \<Rightarrow>
             (case settles apiCall s 2 of
                Inr v \<Rightarrow> (Inr v, after_calls apiCall s 3)
              | Inl e2 \<Rightarrow> (Inl (handleGeminiError e2 ctx), after_calls apiCall s 3))))"
proof -
  obtain r0 s0 where a0: "apiCall s = (r0, s0)" by (cases "apiCall s")
  obtain r1 s1 where a1: "apiCall s0 = (r1, s1)" by (cases "apiCall s0")
  obtain r2 s2 where a2: "apiCall s1 = (r2, s2)" by (cases "apiCall s1")
  have ac: "after_calls apiCall s 1 = s0" "after_calls apiCall s 2 = s1"
    "after_calls apiCall s 3 = s2"
    by (simp_all add: numeral_2_eq_2 numeral_3_eq_3 a0 a1 a2)
  have st: "settles apiCall s 0 = r0" "settles apiCall s 1 = r1" "settles apiCall s 2 = r2"
    by (simp_all add: settles_def numeral_2_eq_2 a0 a1 a2)
  show ?thesis
    unfolding withRetries_def st ac
    by (cases r0; cases r1; cases r2)
       (simp_all add: withRetries_from.simps MAX_RETRIES_def attempt_def a0 a1 a2)
qed

lemma counting_apply:
  "counting apiCall (s, n) = (fst (apiCall s), (snd (apiCall s), Suc n))"
  by (simp add: counting_def split: prod.splits)

lemma after_calls_counting:
  "after_calls (counting apiCall) (s, 0) n = (after_calls apiCall s n, n)"
  by (induction n) (simp_all add: counting_apply)

lemma settles_counting: "settles (counting apiCall) (s, 0) n = settles apiCall s n"
  by (simp add: settles_def after_calls_counting counting_apply)

text \<open>
  Claim C2. \<open>withRetries\<close> invokes the operation one after the other and at most
  \<open>MAX_RETRIES = 3\<close> times. With a counter beside the state of the operation: if the
  first \<open>k - 1\<close> invocations fail and invocation \<open>k\<close> (\<open>1 \<le> k \<le> 3\<close>) succeeds with \<open>v\<close>, the
  result is \<open>v\<close>, the state is the one after \<open>k\<close> invocations and the counter reads
  \<open>k\<close>; if all three fail, the result is the failure that \<open>handleGeminiError\<close> makes
  of the error of the third, after three invocations. The counter always ends between
  1 and 3, and counting changes neither the result nor the state.
\<close>

theorem withRetries_bounded:
  "(\<forall>k v. 1 \<le> k \<and> k \<le> MAX_RETRIES \<and> (\<forall>j<k - 1. isl (settles apiCall s j))
            \<and> settles apiCall s (k - 1) = Inr v
          \<longrightarrow> withRetries (counting apiCall) ctx (s, 0) = (Inr v, (after_calls apiCall s k, k)))
   \<and> ((\<forall>j<MAX_RETRIES. isl (settles apiCall s j))
          \<longrightarrow> withRetries (counting apiCall) ctx (s, 0)
              = (Inl (handleGeminiError (projl (settles apiCall s (MAX_RETRIES - 1))) ctx),
                 (after_calls apiCall s MAX_RETRIES, MAX_RETRIES)))
   \<and> snd (snd (withRetries (counting apiCall) ctx (s, 0))) \<le> MAX_RETRIES
   \<and> 1 \<le> snd (snd (withRetries (counting apiCall) ctx (s, 0)))
   \<and> withRetries apiCall ctx s
       = (fst (withRetries (counting apiCall) ctx (s, 0)),
          fst (snd (withRetries (counting apiCall) ctx (s, 0))))"
proof -
  let ?c = "counting apiCall"
  have W: "withRetries ?c ctx (s, 0) =
     (case settles apiCall s 0 of
        Inr v \<Rightarrow> (Inr v, (after_calls apiCall s 1, 1))
      | Inl e0 \<Rightarrow>
         (case settles apiCall s 1 of
            Inr v \<Rightarrow> (Inr v, (after_calls apiCall s 2, 2))
          | Inl e1 \<Rightarrow>
             (case settles apiCall s 2 of
                Inr v \<Rightarrow> (Inr v, (after_calls apiCall s 3, 3))
              | Inl e2 \<Rightarrow> (Inl (handleGeminiError e2 ctx), (after_calls apiCall s 3, 3)))))"
    by (simp only: withRetries_cases [of ?c] settles_counting after_calls_counting)
  have a: "\<forall>k v. 1 \<le> k \<and> k \<le> MAX_RETRIES \<and> (\<forall>j<k - 1. isl (settles apiCall s j))
            \<and> settles apiCall s (k - 1) = Inr v
          \<longrightarrow> withRetries ?c ctx (s, 0) = (Inr v, (after_calls apiCall s k, k))"
  proof (intro allI impI)
    fix k v
    assume h: "1 \<le> k \<and> k \<le> MAX_RETRIES \<and> (\<forall>j<k - 1. isl (settles apiCall s j))
            \<and> settles apiCall s (k - 1) = Inr v"
    then have "k = 1 \<or> k = 2 \<or> k = 3" by (simp add: MAX_RETRIES_def) arith
    then consider "k = 1" | "k = 2" | "k = 3" by blast
    then show "withRetries ?c ctx (s, 0) = (Inr v, (after_calls apiCall s k, k))"
    proof cases
      case 1
      with h show ?thesis by (simp add: W)
    next
      case 2
      with h have "isl (settles apiCall s 0)" "settles apiCall s 1 = Inr v" by auto
      with 2 show ?thesis by (auto simp: W split: sum.splits)
    next
      case 3
      with h have "isl (settles apiCall s 0)" "isl (settles apiCall s 1)" "settles apiCall s 2 = Inr v"
        by auto
      with 3 show ?thesis by (auto simp: W split: sum.splits)
    qed
  qed
  have b: "(\<forall>j<MAX_RETRIES. isl (settles apiCall s j))
          \<longrightarrow> withRetries ?c ctx (s, 0)
              = (Inl (handleGeminiError (projl (settles apiCall s (MAX_RETRIES - 1))) ctx),
                 (after_calls apiCall s MAX_RETRIES, MAX_RETRIES))"
  proof
    assume h: "\<forall>j<MAX_RETRIES. isl (settles apiCall s j)"
    then have "isl (settles apiCall s 0)" "isl (settles apiCall s 1)" "isl (settles apiCall s 2)"
      by (auto simp: MAX_RETRIES_def)
    then show "withRetries ?c ctx (s, 0)
              = (Inl (handleGeminiError (projl (settles apiCall s (MAX_RETRIES - 1))) ctx),
                 (after_calls apiCall s MAX_RETRIES, MAX_RETRIES))"
      by (auto simp: W MAX_RETRIES_def split: sum.splits)
  qed
  have c: "snd (snd (withRetries ?c ctx (s, 0))) \<le> MAX_RETRIES"
    by (simp add: W MAX_RETRIES_def split: sum.splits)
  have d: "1 \<le> snd (snd (withRetries ?c ctx (s, 0)))"
    by (simp add: W split: sum.splits)
  have e: "withRetries apiCall ctx s
       = (fst (withRetries ?c ctx (s, 0)), fst (snd (withRetries ?c ctx (s, 0))))"
    by (simp add: W withRetries_cases [of apiCall] split: sum.splits)
  from a b c d e show ?thesis by blast
qed

lemma settles_flaky: "settles flaky 0 0 = Inl (Error (js ''timeout''))" "settles flaky 0 1 = Inl (Error (js ''timeout''))"
  "settles flaky 0 2 = Inr (js ''image'')"
  by (simp_all add: settles_def flaky_def numeral_2_eq_2)

lemma after_calls_flaky: "after_calls flaky 0 3 = 3"
  by (simp add: flaky_def numeral_3_eq_3)

lemma after_calls_always_fails: "after_calls (always_fails m) 0 n = n"
  by (induction n) (simp_all add: always_fails_def)

lemma settles_always_fails: "settles (always_fails m) 0 n = Inl (Error m)"
  by (simp add: settles_def always_fails_def)

text \<open>
  The theorem at an operation that fails twice and then succeeds, and at one that
  always fails.
\<close>

theorem withRetries_bounded_witness:
  "withRetries (counting flaky) (js ''ad'') (0, 0) = (Inr (js ''image''), (3, 3))
   \<and> withRetries (counting (always_fails (js ''timeout''))) (js ''ad'') (0, 0)
       = (Inl (msg_raw (js ''timeout'')), (3, 3))"
proof -
  have k: "1 \<le> (3::nat) \<and> 3 \<le> MAX_RETRIES \<and> (\<forall>j<3 - 1. isl (settles flaky 0 j))
           \<and> settles flaky 0 (3 - 1) = Inr (js ''image'')"
  proof -
    have "\<forall>j<2. isl (settles flaky 0 j)"
    proof (intro allI impI)
      fix j :: nat assume "j < 2"
      then have "j = 0 \<or> j = 1" by arith
      then show "isl (settles flaky 0 j)" using settles_flaky by auto
    qed
    then show ?thesis using settles_flaky by (simp add: MAX_RETRIES_def)
  qed
  have f: "\<forall>j<MAX_RETRIES. isl (settles (always_fails (js ''timeout'')) 0 j)"
    by (simp add: settles_always_fails)
  have h: "handleGeminiError (Error (js ''timeout'')) (js ''ad'') = msg_raw (js ''timeout'')"
    by (simp add: handleGeminiError_def jsonMatch_def js_def)
  from withRetries_bounded [of flaky 0 "js ''ad''"] k
  have 1: "withRetries (counting flaky) (js ''ad'') (0, 0) = (Inr (js ''image''), (3, 3))"
    by (metis after_calls_flaky) 
  from withRetries_bounded [of "always_fails (js ''timeout'')" 0 "js ''ad''"] f
  have 2: "withRetries (counting (always_fails (js ''timeout''))) (js ''ad'') (0, 0)
       = (Inl (msg_raw (js ''timeout'')), (3, 3))"
    by (simp add: settles_always_fails after_calls_always_fails h MAX_RETRIES_def)
  from 1 2 show ?thesis by simp
qed

lemma quota_payload_parse:
  "JSON_parse quota_payload
   = Some (JObject [(js ''error'', JObject [(js ''status'', JString (js ''RESOURCE_EXHAUSTED'')),
                                          (js ''message'', JString (js ''x''))])])"
  unfolding quota_payload_def by (simp add: JSON_parse_def lex_defs)

lemma quota_payload_shape:
  \<open>quota_payload = of_char CHR ''{'' # (js ''"error":{"status":"RESOURCE_EXHAUSTED","message":"x"}'') @ [of_char CHR ''}'']\<close>
  by (simp add: quota_payload_def js_def)

lemma handleGeminiError_quota:
  assumes "of_char CHR ''{'' \<notin> set pre" and "of_char CHR ''}'' \<notin> set post"
  shows "handleGeminiError (Error (pre @ quota_payload @ post)) ctx = msg_quota"
proof -
  have "jsonMatch (pre @ quota_payload @ post) = Some quota_payload"
    using jsonMatch_span [OF assms, of \<open>js ''"error":{"status":"RESOURCE_EXHAUSTED","message":"x"}''\<close>]
    by (simp add: quota_payload_shape)
  then show ?thesis
    by (simp add: handleGeminiError_def try_parse_def quota_payload_parse classify_def js_simps)
qed

lemma withRetries_all_fail:
  assumes "\<forall>j<MAX_RETRIES. isl (settles apiCall s j)"
  shows "fst (withRetries apiCall ctx s)
         = Inl (handleGeminiError (projl (settles apiCall s (MAX_RETRIES - 1))) ctx)"
proof -
  from assms have "isl (settles apiCall s 0)" "isl (settles apiCall s 1)" "isl (settles apiCall s 2)"
    by (auto simp: MAX_RETRIES_def)
  then show ?thesis
    by (auto simp: withRetries_cases MAX_RETRIES_def split: sum.splits)
qed

text \<open>
  Claim C8, amended. If every attempt fails with an Error whose message holds the
  payload \<open>quota_payload\<close> with no opening brace before it and no closing brace after
  it, the failure surfaced is the quota message, which holds the rate-limit link and
  is not the provider-error message built from status and message text.
\<close>

theorem quota_message_for_bare_payload:
  assumes "\<forall>j<MAX_RETRIES. \<exists>pre post. of_char CHR ''{'' \<notin> set pre \<and> of_char CHR ''}'' \<notin> set post
              \<and> settles apiCall s j = Inl (Error (pre @ quota_payload @ post))"
  shows "fst (withRetries apiCall ctx s) = Inl msg_quota
         \<and> str_includes msg_quota (js ''https://ai.google.dev/gemini-api/docs/rate-limits'')
         \<and> msg_quota \<noteq> msg_provider (js ''RESOURCE_EXHAUSTED'') (js ''x'')"
proof -
  from assms have fails: "\<forall>j<MAX_RETRIES. isl (settles apiCall s j)" by fastforce
  have "MAX_RETRIES - 1 < MAX_RETRIES" by (simp add: MAX_RETRIES_def)
  with assms obtain pre post where last: "of_char CHR ''{'' \<notin> set pre" "of_char CHR ''}'' \<notin> set post"
      "settles apiCall s (MAX_RETRIES - 1) = Inl (Error (pre @ quota_payload @ post))"
    by blast
  have 1: "fst (withRetries apiCall ctx s) = Inl msg_quota"
    unfolding withRetries_all_fail [OF fails] last(3)
    by (simp add: handleGeminiError_quota [OF last(1,2)])
  have 2: "str_includes msg_quota (js ''https://ai.google.dev/gemini-api/docs/rate-limits'')"
    unfolding str_includes_iff msg_quota_def
    by (rule exI [of _ "js ''We have encountered problems in generating your assets. Error: API Quota Exceeded (out of tokens). For details, visit ''"], rule exI [of _ "[]"])
       (simp add: js_append [symmetric])
  have 3: "msg_quota \<noteq> msg_provider (js ''RESOURCE_EXHAUSTED'') (js ''x'')"
    by (simp add: msg_quota_def msg_provider_def js_append [symmetric] js_simps)
  from 1 2 3 show ?thesis by simp
qed

text \<open>The theorem at an operation that always fails with a status line before the payload.\<close>

theorem quota_message_for_bare_payload_witness:
  "fst (withRetries (always_fails (js ''got status: 429. '' @ quota_payload)) (js ''ad'') 0) = Inl msg_quota"
proof -
  have "\<forall>j<MAX_RETRIES. \<exists>pre post. of_char CHR ''{'' \<notin> set pre \<and> of_char CHR ''}'' \<notin> set post
          \<and> settles (always_fails (js ''got status: 429. '' @ quota_payload)) 0 j
              = Inl (Error (pre @ quota_payload @ post))"
  proof (intro allI impI)
    fix j
    have "of_char CHR ''{'' \<notin> set (js ''got status: 429. '') \<and> of_char CHR ''}'' \<notin> set []
          \<and> settles (always_fails (js ''got status: 429. '' @ quota_payload)) 0 j
              = Inl (Error (js ''got status: 429. '' @ quota_payload @ []))"
      by (simp add: settles_always_fails js_def)
    then show "\<exists>pre post. of_char CHR ''{'' \<notin> set pre \<and> of_char CHR ''}'' \<notin> set post
          \<and> settles (always_fails (js ''got status: 429. '' @ quota_payload)) 0 j
              = Inl (Error (pre @ quota_payload @ post))" by blast
  qed
  from quota_message_for_bare_payload [OF this] show ?thesis by simp
qed

lemma handle_quota_after_braces: "handleGeminiError (Error quota_after_braces) ctx = msg_unexpected"
proof -
  have "handleGeminiError (Error quota_after_braces) [] = msg_unexpected"
    unfolding quota_after_braces_def by (simp add: handle_defs lex_defs msg_unexpected_def)
  then show ?thesis by (simp add: handleGeminiError_def)
qed

lemma handle_quota_nested:
  "handleGeminiError (Error quota_nested) ctx = msg_provider (js ''UNAVAILABLE'') (js ''overloaded'')"
proof -
  have "handleGeminiError (Error quota_nested) [] = msg_provider (js ''UNAVAILABLE'') (js ''overloaded'')"
    unfolding quota_nested_def by (simp add: handle_defs lex_defs msg_provider_def)
  then show ?thesis by (simp add: handleGeminiError_def)
qed

text \<open>
  Claim C8 as stated fails. A message can contain the payload and surface another
  message: with a brace pair before the payload the text between the first opening and
  the last closing brace is not JSON, and the fallback message is surfaced; with the
  payload nested in the details of another error, the provider-error message of the
  outer error is surfaced.
\<close>

theorem quota_payload_contained_counterexample:
  "str_includes quota_after_braces quota_payload
   \<and> fst (withRetries (always_fails quota_after_braces) (js ''ad'') 0) = Inl msg_unexpected
   \<and> msg_unexpected \<noteq> msg_quota
   \<and> str_includes quota_nested quota_payload
   \<and> fst (withRetries (always_fails quota_nested) (js ''ad'') 0)
       = Inl (msg_provider (js ''UNAVAILABLE'') (js ''overloaded''))
   \<and> msg_provider (js ''UNAVAILABLE'') (js ''overloaded'') \<noteq> msg_quota"
proof -
  have 1: "str_includes quota_after_braces quota_payload"
    unfolding quota_after_braces_def quota_payload_def by code_simp
  have 2: "str_includes quota_nested quota_payload"
    unfolding quota_nested_def quota_payload_def by code_simp
  have 3: "fst (withRetries (always_fails m) (js ''ad'') 0) = Inl (handleGeminiError (Error m) (js ''ad''))" for m
    using withRetries_all_fail [of "always_fails m" 0 "js ''ad''"]
    by (simp add: settles_always_fails)
  show ?thesis
    by (simp add: 1 2 3 handle_quota_after_braces handle_quota_nested)
       (simp add: msg_unexpected_def msg_quota_def msg_provider_def js_append [symmetric] js_simps)
qed

section \<open>The batch of three\<close>

text \<open>
  \<open>joined_agrees\<close> holds when \<open>generateAds\<close> begins and after every event, and the task
  of a direction changes with the answers to its own request only.
\<close>

lemma first_rejected_None_iff: "first_rejected ps = None \<longleftrightarrow> (\<forall>m. Rejected m \<notin> set ps)"
  by (induction ps rule: first_rejected.induct) auto

lemma first_rejected_Some: "first_rejected ps = Some m \<Longrightarrow> Rejected m \<in> set ps"
  by (induction ps rule: first_rejected.induct) auto

lemma first_rejected_at:
  assumes "i < length ps" and "ps ! i = Rejected m" and "\<forall>j<i. \<not> isRejected (ps ! j)"
  shows "first_rejected ps = Some m"
  using assms
proof (induction ps arbitrary: i rule: first_rejected.induct)
  case 1
  then show ?case by simp
next
  case (2 m' ps)
  show ?case
  proof (cases i)
    case 0
    with 2 show ?thesis by simp
  next
    case (Suc k)
    with 2(3) have "\<not> isRejected ((Rejected m' # ps) ! 0)" by blast
    then show ?thesis by (simp add: isRejected_def)
  qed
next
  case (3 ps)
  show ?case
  proof (cases i)
    case 0
    with 3 show ?thesis by simp
  next
    case (Suc k)
    have "\<forall>j<k. \<not> isRejected (ps ! j)"
    proof (intro allI impI)
      fix j assume "j < k"
      then have "Suc j < i" using Suc by simp
      with 3(4) have "\<not> isRejected ((Pending # ps) ! Suc j)" by blast
      then show "\<not> isRejected (ps ! j)" by simp
    qed
    with 3 Suc show ?thesis by simp
  qed
next
  case (4 v ps)
  show ?case
  proof (cases i)
    case 0
    with 4 show ?thesis by simp
  next
    case (Suc k)
    have "\<forall>j<k. \<not> isRejected (ps ! j)"
    proof (intro allI impI)
      fix j assume "j < k"
      then have "Suc j < i" using Suc by simp
      with 4(4) have "\<not> isRejected ((Fulfilled v # ps) ! Suc j)" by blast
      then show "\<not> isRejected (ps ! j)" by simp
    qed
    with 4 Suc show ?thesis by simp
  qed
qed

lemma values_of_Some_iff: "values_of ps = Some vs \<longleftrightarrow> ps = map Fulfilled vs"
proof (induction ps arbitrary: vs rule: values_of.induct)
  case 1
  then show ?case by auto
next
  case (2 v ps)
  then show ?case by (cases vs) auto
next
  case (3 ps)
  then show ?case by (cases vs) auto
next
  case (4 m ps)
  then show ?case by (cases vs) auto
qed

lemma task_settle_settled: "task_progress t = Settled r \<Longrightarrow> task_settle settled t = t"
  by (simp add: task_settle_def)

lemma promise_settled: "promise_of pr \<noteq> Pending \<Longrightarrow> \<exists>r. pr = Settled r"
  by (cases pr) auto

lemma task_settle_keeps:
  assumes "promise_of (task_progress t) \<noteq> Pending"
  shows "task_settle settled t = t"
  using promise_settled [OF assms] task_settle_settled by blast

lemma fold_task_settle_keeps:
  assumes "promise_of (task_progress t) \<noteq> Pending"
  shows "fold task_settle rs t = t"
  using assms by (induction rs) (simp_all add: task_settle_keeps)

lemma task_react_keeps:
  assumes "promise_of (task_progress t) \<noteq> Pending"
  shows "task_react e t = t"
  using assms by (cases e) (simp add: task_react_def task_settle_keeps)

lemma task_request_settle: "task_request (task_settle settled t) = task_request t"
  by (simp add: task_settle_def split: progress.splits)

lemma task_request_react: "task_request (task_react e t) = task_request t"
  by (cases e) (simp add: task_react_def task_request_settle)

lemma promises_step:
  "promises (generateAds_step e run) = map (\<lambda>t. promise_of (task_progress (task_react e t))) (tasks run)"
  by (simp add: promises_def generateAds_step_def Let_def comp_def)

lemma joined_step:
  "joined (generateAds_step e run)
     = Promise_all_react (joined run) (promises (generateAds_step e run))"
  by (simp add: promises_def generateAds_step_def Let_def)

lemma Promise_all_begin_agrees:
  assumes "joined run = Promise_all_begin (promises run)"
  shows "joined_agrees run"
  using assms unfolding joined_agrees_def Promise_all_begin_def
  by (auto split: option.splits dest: first_rejected_Some)

lemma joined_agrees_step:
  assumes "joined_agrees run"
  shows "joined_agrees (generateAds_step e run)"
proof (cases "joined run")
  case Pending
  then have "joined (generateAds_step e run) = Promise_all_begin (promises (generateAds_step e run))"
    by (simp add: joined_step Promise_all_react_def)
  then show ?thesis by (rule Promise_all_begin_agrees)
next
  case (Fulfilled vs)
  with assms have all: "promises run = map Fulfilled vs"
    by (simp add: joined_agrees_def values_of_Some_iff)
  have "promise_of (task_progress (task_react e t)) = promise_of (task_progress t)"
    if "t \<in> set (tasks run)" for t
  proof -
    from that have "promise_of (task_progress t) \<in> set (promises run)" by (simp add: promises_def)
    with all have "promise_of (task_progress t) \<noteq> Pending" by auto
    then show ?thesis by (simp add: task_react_keeps)
  qed
  then have "map (\<lambda>t. promise_of (task_progress (task_react e t))) (tasks run)
             = map (\<lambda>t. promise_of (task_progress t)) (tasks run)"
    by (intro map_cong refl)
  then have "promises (generateAds_step e run) = promises run"
    by (simp only: promises_step) (simp add: promises_def)
  with Fulfilled assms show ?thesis
    by (simp add: joined_agrees_def joined_step Promise_all_react_def)
next
  case (Rejected m)
  with assms have "Rejected m \<in> set (promises run)" by (simp add: joined_agrees_def)
  then obtain t where t: "t \<in> set (tasks run)" "promise_of (task_progress t) = Rejected m"
    by (auto simp: promises_def)
  then have "task_react e t = t" by (simp add: task_react_keeps)
  with t have "Rejected m \<in> set (promises (generateAds_step e run))"
    by (force simp: promises_step)
  with Rejected show ?thesis
    by (simp add: joined_agrees_def joined_step Promise_all_react_def)
qed

lemma joined_agrees_fold:
  "joined_agrees run \<Longrightarrow> joined_agrees (fold generateAds_step events run)"
  by (induction events arbitrary: run) (simp_all add: joined_agrees_step)

lemma joined_agrees_begin:
  "joined_agrees (generateAds_begin p st l copy ar)"
  by (rule Promise_all_begin_agrees) (simp add: generateAds_begin_def Let_def promises_def)

lemma joined_stays:
  "joined run = Rejected m \<Longrightarrow> joined (fold generateAds_step events run) = Rejected m"
  by (induction events arbitrary: run) (simp_all add: joined_step Promise_all_react_def)

lemma events_of_Cons:
  "events_of r (e # es) = (if fst e = r then snd e # events_of r es else events_of r es)"
  by (simp add: events_of_def)

lemma events_of_append: "events_of r (es @ es') = events_of r es @ events_of r es'"
  by (simp add: events_of_def)

lemma tasks_fold:
  assumes "i < length (tasks run)"
  shows "tasks (fold generateAds_step events run) ! i
         = fold task_settle (events_of (task_request (tasks run ! i)) events) (tasks run ! i)
         \<and> length (tasks (fold generateAds_step events run)) = length (tasks run)"
  using assms
proof (induction events arbitrary: run)
  case Nil
  then show ?case by (simp add: events_of_def)
next
  case (Cons e events)
  let ?run' = "generateAds_step e run"
  have len: "length (tasks ?run') = length (tasks run)"
    by (simp add: generateAds_step_def Let_def)
  have at: "tasks ?run' ! i = task_react e (tasks run ! i)"
    using Cons.prems by (simp add: generateAds_step_def Let_def)
  have "i < length (tasks ?run')" using Cons.prems len by simp
  from Cons.IH [OF this] show ?case
    unfolding at task_request_react len
    by (cases e) (simp add: events_of_Cons task_react_def)
qed

lemma tasks_begin:
  "length (tasks (generateAds_begin p st l copy ar)) = 3"
  "i < 3 \<Longrightarrow> tasks (generateAds_begin p st l copy ar) ! i
               = generateSingleAd_begin p st l copy (styleVariations ! i) ar"
proof -
  have three: "length styleVariations = 3" by (simp add: styleVariations_def)
  show "length (tasks (generateAds_begin p st l copy ar)) = 3"
    by (simp add: generateAds_begin_def Let_def three)
  assume "i < 3"
  then show "tasks (generateAds_begin p st l copy ar) ! i
               = generateSingleAd_begin p st l copy (styleVariations ! i) ar"
    by (simp add: generateAds_begin_def Let_def three)
qed

lemma task_request_begin:
  "task_request (generateSingleAd_begin p st l copy (styleVariations ! i) ar)
     = direction_request p st l copy ar i"
  by (simp add: generateSingleAd_begin_def direction_request_def)

lemma tasks_after:
  "length (tasks (generateAds_after events p st l copy ar)) = 3"
  "i < 3 \<Longrightarrow> tasks (generateAds_after events p st l copy ar) ! i
               = fold task_settle (events_of (direction_request p st l copy ar i) events)
                   (generateSingleAd_begin p st l copy (styleVariations ! i) ar)"
proof -
  have l3: "length (tasks (generateAds_begin p st l copy ar)) = 3" by (rule tasks_begin)
  have "0 < length (tasks (generateAds_begin p st l copy ar))" using l3 by simp
  from tasks_fold [OF this] l3
  show "length (tasks (generateAds_after events p st l copy ar)) = 3"
    by (simp add: generateAds_after_def)
  assume i: "i < 3"
  then have "i < length (tasks (generateAds_begin p st l copy ar))" using l3 by simp
  from tasks_fold [OF this, of events] i
  show "tasks (generateAds_after events p st l copy ar) ! i
               = fold task_settle (events_of (direction_request p st l copy ar i) events)
                   (generateSingleAd_begin p st l copy (styleVariations ! i) ar)"
    by (simp add: generateAds_after_def tasks_begin(2) task_request_begin)
qed

lemma promises_after:
  "length (promises (generateAds_after events p st l copy ar)) = 3"
  "i < 3 \<Longrightarrow> promises (generateAds_after events p st l copy ar) ! i
               = direction_call events p st l copy ar i"
  by (simp_all add: promises_def tasks_after direction_call_def)

lemma fold_task_request: "task_request (fold task_settle rs t) = task_request t"
  by (induction rs arbitrary: t) (simp_all add: task_request_settle)

lemma requests_after:
  "i < 3 \<Longrightarrow> task_request (tasks (generateAds_after events p st l copy ar) ! i)
               = direction_request p st l copy ar i"
  by (simp add: tasks_after fold_task_request task_request_begin)

lemma three_elements:
  assumes "length xs = 3"
  shows "xs = [xs ! 0, xs ! 1, xs ! 2]"
proof -
  from assms obtain a b c where "xs = [a, b, c]"
    by (auto simp: numeral_3_eq_3 length_Suc_conv)
  then show ?thesis by simp
qed

lemma below_three: "i < (3::nat) \<Longrightarrow> i = 0 \<or> i = 1 \<or> i = 2"
  by arith

text \<open>The three creative directions differ, and so do the requests that carry them.\<close>

lemma styleVariations_differ:
  "styleVariations ! 0 \<noteq> styleVariations ! 1" "styleVariations ! 1 \<noteq> styleVariations ! 0"
  "styleVariations ! 0 \<noteq> styleVariations ! 2" "styleVariations ! 2 \<noteq> styleVariations ! 0"
  "styleVariations ! 1 \<noteq> styleVariations ! 2" "styleVariations ! 2 \<noteq> styleVariations ! 1"
  "styleVariations ! 0 \<noteq> styleVariations ! Suc 0" "styleVariations ! Suc 0 \<noteq> styleVariations ! 0"
  "styleVariations ! Suc 0 \<noteq> styleVariations ! 2" "styleVariations ! 2 \<noteq> styleVariations ! Suc 0"
  by (simp_all add: styleVariations_def js_eq_iff)

lemma direction_request_inj:
  assumes "i < 3" and "j < 3"
    and "direction_request p st l copy ar i = direction_request p st l copy ar j"
  shows "i = j"
  using below_three [OF assms(1)] below_three [OF assms(2)] assms(3) styleVariations_differ
  by (auto simp: direction_request_def)

lemma direction_call_unchanged:
  assumes "fst e \<noteq> direction_request p st l copy ar j"
  shows "direction_call (es @ [e]) p st l copy ar j = direction_call es p st l copy ar j"
  using assms by (simp add: direction_call_def events_of_append events_of_Cons events_of_def)

lemma direction_call_settled:
  assumes "direction_call es p st l copy ar j \<noteq> Pending"
  shows "direction_call (es @ es') p st l copy ar j = direction_call es p st l copy ar j"
  using assms unfolding direction_call_def events_of_append fold_append comp_def
  by (simp add: fold_task_settle_keeps)

text \<open>
  The first failure: if no call has failed after the events \<open>es1\<close> and the next event
  makes the call of direction \<open>i\<close> fail with \<open>m\<close>, \<open>generateAds\<close> fails with \<open>m\<close>,
  whatever comes after.
\<close>

lemma first_failure:
  assumes i: "i < 3"
    and before: "\<forall>j<3. \<not> isRejected (direction_call es1 p st l copy ar j)"
    and now: "direction_call (es1 @ [e]) p st l copy ar i = Rejected m"
  shows "generateAds (es1 @ e # es2) p st l copy ar = Rejected m"
proof -
  let ?run1 = "generateAds_after es1 p st l copy ar"
  let ?run2 = "generateAds_after (es1 @ [e]) p st l copy ar"
  have agree: "joined_agrees ?run1"
    unfolding generateAds_after_def by (rule joined_agrees_fold [OF joined_agrees_begin])
  have step: "?run2 = generateAds_step e ?run1" by (simp add: generateAds_after_def)
  have not_i: "\<not> isRejected (direction_call es1 p st l copy ar i)" using before i by blast
  have pending: "direction_call es1 p st l copy ar i = Pending"
  proof (rule ccontr)
    assume "direction_call es1 p st l copy ar i \<noteq> Pending"
    from direction_call_settled [OF this, of "[e]"] now
    have "direction_call es1 p st l copy ar i = Rejected m" by simp
    with not_i show False by (simp add: isRejected_def)
  qed
  have mine: "fst e = direction_request p st l copy ar i"
  proof (rule ccontr)
    assume "fst e \<noteq> direction_request p st l copy ar i"
    from direction_call_unchanged [OF this, of es1] now pending show False by simp
  qed
  have others: "\<not> isRejected (direction_call (es1 @ [e]) p st l copy ar j)" if "j < 3" "j \<noteq> i" for j
  proof -
    have "fst e \<noteq> direction_request p st l copy ar j"
      using direction_request_inj [OF i that(1)] that(2) mine by metis
    from direction_call_unchanged [OF this, of es1] before that(1) show ?thesis by simp
  qed
  have j1: "joined ?run1 = Pending"
  proof (cases "joined ?run1")
    case Pending
    then show ?thesis .
  next
    case (Fulfilled vs)
    with agree have "promises ?run1 = map Fulfilled vs"
      by (simp add: joined_agrees_def values_of_Some_iff)
    moreover have "length (promises ?run1) = 3" by (rule promises_after)
    ultimately have "promises ?run1 ! i = Fulfilled (vs ! i)" using i by simp
    with pending i show ?thesis by (simp add: promises_after)
  next
    case (Rejected m')
    with agree have "Rejected m' \<in> set (promises ?run1)" by (simp add: joined_agrees_def)
    then obtain k where "k < 3" "promises ?run1 ! k = Rejected m'"
      using promises_after(1) [of es1 p st l copy ar] by (auto simp: in_set_conv_nth)
    with before show ?thesis by (auto simp: promises_after isRejected_def)
  qed
  have "first_rejected (promises ?run2) = Some m"
  proof (rule first_rejected_at [of i])
    show "i < length (promises ?run2)" using i by (simp add: promises_after)
    show "promises ?run2 ! i = Rejected m" using i now by (simp add: promises_after)
    show "\<forall>j<i. \<not> isRejected (promises ?run2 ! j)"
      using i others by (simp add: promises_after)
  qed
  then have "joined ?run2 = Rejected m"
    unfolding step using j1 by (simp add: joined_step Promise_all_react_def Promise_all_begin_def)
  then have "joined (fold generateAds_step es2 ?run2) = Rejected m" by (rule joined_stays)
  then show ?thesis by (simp add: generateAds_def generateAds_after_def)
qed

text \<open>
  Claim C1. For the three creative directions and every sequence of events. The three
  calls in flight carry, in their order, the requests of the three directions. If the
  call of every direction \<open>i\<close> is fulfilled with \<open>v i\<close>, \<open>generateAds\<close> is fulfilled with
  \<open>[v 0, v 1, v 2]\<close>, and so it is after every other sequence that answers the request
  of each direction in the same way, whatever the order of the answers among the
  directions. If, no call having failed yet, an event makes the call of a direction
  fail, \<open>generateAds\<close> fails with that call's failure, whatever happens later; if the
  call of some direction has failed, \<open>generateAds\<close> has failed, with the failure of a
  call that has failed, which is that call's failure when no other call has failed.
  And \<open>generateAds\<close> is fulfilled only with three values, those of the three calls in
  the order of the directions, so never with a part of them.
\<close>

theorem generateAds_all_or_nothing:
  "map task_request (tasks (generateAds_after events p st l copy ar))
     = map (direction_request p st l copy ar) [0, 1, 2]
   \<and> ((\<forall>i<3. direction_call events p st l copy ar i = Fulfilled (v i))
      \<longrightarrow> generateAds events p st l copy ar = Fulfilled [v 0, v 1, v 2])
   \<and> ((\<forall>i<3. direction_call events p st l copy ar i = Fulfilled (v i))
        \<and> (\<forall>i<3. events_of (direction_request p st l copy ar i) events'
                   = events_of (direction_request p st l copy ar i) events)
      \<longrightarrow> generateAds events' p st l copy ar = Fulfilled [v 0, v 1, v 2])
   \<and> (\<forall>es1 e es2 i m. events = es1 @ e # es2 \<and> i < 3
        \<and> (\<forall>j<3. \<not> isRejected (direction_call es1 p st l copy ar j))
        \<and> direction_call (es1 @ [e]) p st l copy ar i = Rejected m
      \<longrightarrow> generateAds events p st l copy ar = Rejected m)
   \<and> ((\<exists>i<3. \<exists>m. direction_call events p st l copy ar i = Rejected m)
      \<longrightarrow> (\<exists>i<3. \<exists>m. generateAds events p st l copy ar = Rejected m
                     \<and> direction_call events p st l copy ar i = Rejected m))
   \<and> (\<forall>i m. i < 3 \<and> direction_call events p st l copy ar i = Rejected m
        \<and> (\<forall>j m'. j < 3 \<and> direction_call events p st l copy ar j = Rejected m' \<longrightarrow> j = i)
      \<longrightarrow> generateAds events p st l copy ar = Rejected m)
   \<and> (\<forall>vs. generateAds events p st l copy ar = Fulfilled vs
      \<longrightarrow> length vs = 3 \<and> (\<forall>i<3. direction_call events p st l copy ar i = Fulfilled (vs ! i)))"
proof -
  have agree: "joined_agrees (generateAds_after es p st l copy ar)" for es
    unfolding generateAds_after_def by (rule joined_agrees_fold [OF joined_agrees_begin])
  have len: "length (promises (generateAds_after es p st l copy ar)) = 3" for es
    by (rule promises_after)
  have nth: "i < 3 \<Longrightarrow> promises (generateAds_after es p st l copy ar) ! i
                       = direction_call es p st l copy ar i" for es i
    by (rule promises_after)
  have r: "map task_request (tasks (generateAds_after events p st l copy ar))
     = map (direction_request p st l copy ar) [0, 1, 2]"
  proof -
    let ?rs = "map task_request (tasks (generateAds_after events p st l copy ar))"
    have l: "length ?rs = 3" by (simp add: tasks_after)
    have "?rs = [?rs ! 0, ?rs ! 1, ?rs ! 2]" by (rule three_elements [OF l])
    moreover have "?rs ! 0 = direction_request p st l copy ar 0"
      "?rs ! 1 = direction_request p st l copy ar 1" "?rs ! 2 = direction_request p st l copy ar 2"
      by (simp_all add: tasks_after(1) requests_after)
    ultimately show ?thesis by simp
  qed
  have success: "generateAds es p st l copy ar = Fulfilled [v 0, v 1, v 2]"
    if all: "\<forall>i<3. direction_call es p st l copy ar i = Fulfilled (v i)" for es
  proof -
    let ?ps = "promises (generateAds_after es p st l copy ar)"
    have "?ps = [?ps ! 0, ?ps ! 1, ?ps ! 2]" by (rule three_elements [OF len])
    moreover have "?ps ! 0 = Fulfilled (v 0)" "?ps ! 1 = Fulfilled (v 1)" "?ps ! 2 = Fulfilled (v 2)"
      using all nth [of 0 es] nth [of 1 es] nth [of 2 es] by simp_all
    ultimately have ps: "?ps = map Fulfilled [v 0, v 1, v 2]" by simp
    then have vals: "values_of ?ps = Some [v 0, v 1, v 2]" by (simp only: values_of_Some_iff)
    have norej: "first_rejected ?ps = None" unfolding first_rejected_None_iff ps by auto
    show ?thesis
    proof (cases "joined (generateAds_after es p st l copy ar)")
      case Pending
      with agree [of es] vals show ?thesis by (simp add: joined_agrees_def)
    next
      case (Fulfilled vs)
      with agree [of es] vals show ?thesis by (simp add: joined_agrees_def generateAds_def)
    next
      case (Rejected m)
      with agree [of es] have "Rejected m \<in> set ?ps" by (simp add: joined_agrees_def)
      with norej show ?thesis by (simp add: first_rejected_None_iff)
    qed
  qed
  have a: "(\<forall>i<3. direction_call events p st l copy ar i = Fulfilled (v i))
      \<longrightarrow> generateAds events p st l copy ar = Fulfilled [v 0, v 1, v 2]"
    using success by blast
  have b: "(\<forall>i<3. direction_call events p st l copy ar i = Fulfilled (v i))
        \<and> (\<forall>i<3. events_of (direction_request p st l copy ar i) events'
                   = events_of (direction_request p st l copy ar i) events)
      \<longrightarrow> generateAds events' p st l copy ar = Fulfilled [v 0, v 1, v 2]"
  proof
    assume h: "(\<forall>i<3. direction_call events p st l copy ar i = Fulfilled (v i))
        \<and> (\<forall>i<3. events_of (direction_request p st l copy ar i) events'
                   = events_of (direction_request p st l copy ar i) events)"
    then have "\<forall>i<3. direction_call events' p st l copy ar i = Fulfilled (v i)"
      by (simp add: direction_call_def)
    then show "generateAds events' p st l copy ar = Fulfilled [v 0, v 1, v 2]" by (rule success)
  qed
  have f: "\<forall>es1 e es2 i m. events = es1 @ e # es2 \<and> i < 3
        \<and> (\<forall>j<3. \<not> isRejected (direction_call es1 p st l copy ar j))
        \<and> direction_call (es1 @ [e]) p st l copy ar i = Rejected m
      \<longrightarrow> generateAds events p st l copy ar = Rejected m"
    using first_failure by blast
  have c: "(\<exists>i<3. \<exists>m. direction_call events p st l copy ar i = Rejected m)
      \<longrightarrow> (\<exists>i<3. \<exists>m. generateAds events p st l copy ar = Rejected m
                     \<and> direction_call events p st l copy ar i = Rejected m)"
  proof
    let ?ps = "promises (generateAds_after events p st l copy ar)"
    assume "\<exists>i<3. \<exists>m. direction_call events p st l copy ar i = Rejected m"
    then obtain i m where im: "i < 3" "direction_call events p st l copy ar i = Rejected m" by blast
    then have mem: "Rejected m \<in> set ?ps" using nth [of i events] len [of events]
      by (metis nth_mem)
    show "\<exists>i<3. \<exists>m. generateAds events p st l copy ar = Rejected m
                     \<and> direction_call events p st l copy ar i = Rejected m"
    proof (cases "joined (generateAds_after events p st l copy ar)")
      case Pending
      with agree [of events] mem show ?thesis
        by (simp add: joined_agrees_def first_rejected_None_iff)
    next
      case (Fulfilled vs)
      with agree [of events] mem show ?thesis
        by (auto simp: joined_agrees_def values_of_Some_iff)
    next
      case (Rejected m')
      with agree [of events] have "Rejected m' \<in> set ?ps" by (simp add: joined_agrees_def)
      then obtain k where "k < 3" "?ps ! k = Rejected m'"
        using len [of events] by (auto simp: in_set_conv_nth)
      then show ?thesis using Rejected nth [of k events] by (auto simp: generateAds_def)
    qed
  qed
  have d: "\<forall>vs. generateAds events p st l copy ar = Fulfilled vs
      \<longrightarrow> length vs = 3 \<and> (\<forall>i<3. direction_call events p st l copy ar i = Fulfilled (vs ! i))"
  proof (intro allI impI)
    fix vs
    let ?ps = "promises (generateAds_after events p st l copy ar)"
    assume "generateAds events p st l copy ar = Fulfilled vs"
    with agree [of events] have ps: "?ps = map Fulfilled vs"
      by (simp add: joined_agrees_def generateAds_def values_of_Some_iff)
    then have l: "length vs = 3" using len [of events] by simp
    moreover have "\<forall>i<3. direction_call events p st l copy ar i = Fulfilled (vs ! i)"
    proof (intro allI impI)
      fix i :: nat assume "i < 3"
      then show "direction_call events p st l copy ar i = Fulfilled (vs ! i)"
        using nth [of i events] ps l by simp
    qed
    ultimately show "length vs = 3 \<and> (\<forall>i<3. direction_call events p st l copy ar i = Fulfilled (vs ! i))"
      by blast
  qed
  have e: "\<forall>i m. i < 3 \<and> direction_call events p st l copy ar i = Rejected m
        \<and> (\<forall>j m'. j < 3 \<and> direction_call events p st l copy ar j = Rejected m' \<longrightarrow> j = i)
      \<longrightarrow> generateAds events p st l copy ar = Rejected m"
  proof (intro allI impI)
    fix i m
    assume h: "i < 3 \<and> direction_call events p st l copy ar i = Rejected m
        \<and> (\<forall>j m'. j < 3 \<and> direction_call events p st l copy ar j = Rejected m' \<longrightarrow> j = i)"
    then have "\<exists>i<3. \<exists>m. direction_call events p st l copy ar i = Rejected m" by blast
    with c obtain k m' where k: "k < 3" "generateAds events p st l copy ar = Rejected m'"
        "direction_call events p st l copy ar k = Rejected m'" by blast
    with h have "k = i" by blast
    with k h have "m' = m" by simp
    with k show "generateAds events p st l copy ar = Rejected m" by simp
  qed
  from r a b f c e d show ?thesis by blast
qed

text \<open>
  The task of the transition system and \<open>generateSingleAd\<close> on a provider state are the
  same loop: fed the three settlements the provider gives in a row, the task ends as
  \<open>generateSingleAd\<close> does.
\<close>

lemma provider_call_apply:
  "provider_call provider request failure s
     = (imageOrThrow failure (fst (provider request s)), snd (provider request s))"
  by (simp add: provider_call_def split: prod.splits)

lemma after_calls_provider_call:
  "after_calls (provider_call provider request failure) s n = after_calls (provider request) s n"
  by (induction n) (simp_all add: provider_call_apply)

lemma settles_provider_call:
  "settles (provider_call provider request failure) s n
     = imageOrThrow failure (settles (provider request) s n)"
  by (simp add: settles_def after_calls_provider_call provider_call_apply)

lemma task_follows_withRetries:
  "promise_of (task_progress
     (fold task_settle
        [settles (provider (AdRequest p st l copy d ar)) s 0,
         settles (provider (AdRequest p st l copy d ar)) s 1,
         settles (provider (AdRequest p st l copy d ar)) s 2]
        (generateSingleAd_begin p st l copy d ar)))
   = (case fst (generateSingleAd provider p st l copy d ar s) of
        Inr v \<Rightarrow> Fulfilled v
      | Inl m \<Rightarrow> Rejected m)"
  unfolding generateSingleAd_def withRetries_cases settles_provider_call
  by (cases "imageOrThrow msg_no_image (settles (provider (AdRequest p st l copy d ar)) s 0)";
      cases "imageOrThrow msg_no_image (settles (provider (AdRequest p st l copy d ar)) s 1)";
      cases "imageOrThrow msg_no_image (settles (provider (AdRequest p st l copy d ar)) s 2)")
     (simp_all add: generateSingleAd_begin_def task_settle_def withRetries_enter_def
        withRetries_resume_def attempt_def MAX_RETRIES_def)

lemma handle_plain:
  "handleGeminiError (Error (js ''network down'')) ctx = msg_raw (js ''network down'')"
  "handleGeminiError (Error (js ''overloaded'')) ctx = msg_raw (js ''overloaded'')"
  by (simp_all add: handleGeminiError_def jsonMatch_def js_def)

lemmas run_simps = direction_call_def events_of_def generateSingleAd_begin_def task_settle_def
  withRetries_enter_def withRetries_resume_def attempt_def MAX_RETRIES_def imageOrThrow_def
  findImagePart_def png_def dataUrl_def template_def handle_plain request_of_def
  direction_request_def styleVariations_differ js_append [symmetric]

lemma out_of_order_calls:
  "direction_call out_of_order picture picture picture (adCopy ready) (js ''1:1'') 0
     = Fulfilled (js ''data:image/png;base64,AAAA'')"
  "direction_call out_of_order picture picture picture (adCopy ready) (js ''1:1'') 1
     = Fulfilled (js ''data:image/png;base64,BBBB'')"
  "direction_call out_of_order picture picture picture (adCopy ready) (js ''1:1'') 2
     = Fulfilled (js ''data:image/png;base64,CCCC'')"
  by (simp_all add: run_simps out_of_order_def)

lemma one_fails_calls:
  "direction_call one_fails picture picture picture (adCopy ready) (js ''1:1'') 0
     = Fulfilled (js ''data:image/png;base64,AAAA'')"
  "direction_call one_fails picture picture picture (adCopy ready) (js ''1:1'') 1
     = Rejected (msg_raw (js ''network down''))"
  "direction_call one_fails picture picture picture (adCopy ready) (js ''1:1'') 2
     = Fulfilled (js ''data:image/png;base64,CCCC'')"
  by (simp_all add: run_simps one_fails_def)

lemma two_fail_split:
  "two_fail = take 4 two_fail @ (request_of 2, Inl (Error (js ''overloaded''))) # drop 5 two_fail"
  by (simp add: two_fail_def)

lemma two_fail_before_calls:
  "direction_call (take 4 two_fail) picture picture picture (adCopy ready) (js ''1:1'') 0 = Pending"
  "direction_call (take 4 two_fail) picture picture picture (adCopy ready) (js ''1:1'') 1 = Pending"
  "direction_call (take 4 two_fail) picture picture picture (adCopy ready) (js ''1:1'') 2 = Pending"
  by (simp_all add: run_simps two_fail_def)

lemma two_fail_before:
  "\<forall>j<3. \<not> isRejected (direction_call (take 4 two_fail) picture picture picture (adCopy ready)
                         (js ''1:1'') j)"
  using two_fail_before_calls by (auto dest!: below_three simp: isRejected_def)

lemma two_fail_now:
  "direction_call (take 4 two_fail @ [(request_of 2, Inl (Error (js ''overloaded'')))])
     picture picture picture (adCopy ready) (js ''1:1'') 2
   = Rejected (msg_raw (js ''overloaded''))"
  by (simp add: run_simps two_fail_def)

lemma two_fail_calls:
  "direction_call two_fail picture picture picture (adCopy ready) (js ''1:1'') 1
     = Rejected (msg_raw (js ''network down''))"
  "direction_call two_fail picture picture picture (adCopy ready) (js ''1:1'') 2
     = Rejected (msg_raw (js ''overloaded''))"
  by (simp_all add: run_simps two_fail_def)

text \<open>
  The theorem at a run where direction 2 settles first and direction 0 last after one
  retry, at the same answers taken direction by direction, at a run where direction 1
  fails three times, and at a run where directions 1 and 2 both fail, direction 2
  first.
\<close>

theorem generateAds_all_or_nothing_witness:
  "generateAds out_of_order picture picture picture (adCopy ready) (js ''1:1'')
     = Fulfilled [js ''data:image/png;base64,AAAA'', js ''data:image/png;base64,BBBB'',
                  js ''data:image/png;base64,CCCC'']
   \<and> generateAds in_order picture picture picture (adCopy ready) (js ''1:1'')
     = Fulfilled [js ''data:image/png;base64,AAAA'', js ''data:image/png;base64,BBBB'',
                  js ''data:image/png;base64,CCCC'']
   \<and> generateAds one_fails picture picture picture (adCopy ready) (js ''1:1'')
     = Rejected (msg_raw (js ''network down''))
   \<and> generateAds two_fail picture picture picture (adCopy ready) (js ''1:1'')
     = Rejected (msg_raw (js ''overloaded''))
   \<and> direction_call two_fail picture picture picture (adCopy ready) (js ''1:1'') 1
     = Rejected (msg_raw (js ''network down''))"
proof -
  let ?v = "\<lambda>i::nat. [js ''data:image/png;base64,AAAA'', js ''data:image/png;base64,BBBB'',
                        js ''data:image/png;base64,CCCC''] ! i"
  have all: "\<forall>i<3. direction_call out_of_order picture picture picture (adCopy ready) (js ''1:1'') i
                 = Fulfilled (?v i)"
    using out_of_order_calls by (auto dest!: below_three)
  have same: "\<forall>i<3. events_of (direction_request picture picture picture (adCopy ready) (js ''1:1'') i)
                      in_order
                    = events_of (direction_request picture picture picture (adCopy ready) (js ''1:1'') i)
                        out_of_order"
    by (auto dest!: below_three
             simp: events_of_def in_order_def out_of_order_def request_of_def direction_request_def
                   styleVariations_differ)
  note t = generateAds_all_or_nothing
             [of out_of_order picture picture picture "adCopy ready" "js ''1:1''" ?v in_order]
  from t all have 1: "generateAds out_of_order picture picture picture (adCopy ready) (js ''1:1'')
     = Fulfilled [?v 0, ?v 1, ?v 2]" by blast
  from t all same have 2: "generateAds in_order picture picture picture (adCopy ready) (js ''1:1'')
     = Fulfilled [?v 0, ?v 1, ?v 2]" by blast
  have "\<exists>i<3. \<exists>m. direction_call one_fails picture picture picture (adCopy ready) (js ''1:1'') i
                    = Rejected m"
    using one_fails_calls(2) by (intro exI [of _ 1]) simp
  with generateAds_all_or_nothing
         [of one_fails picture picture picture "adCopy ready" "js ''1:1''" ?v in_order]
  obtain i m where im: "i < 3"
      "generateAds one_fails picture picture picture (adCopy ready) (js ''1:1'') = Rejected m"
      "direction_call one_fails picture picture picture (adCopy ready) (js ''1:1'') i = Rejected m"
    by blast
  from below_three [OF im(1)] im(3) one_fails_calls have "m = msg_raw (js ''network down'')" by auto
  with im(2) have 3: "generateAds one_fails picture picture picture (adCopy ready) (js ''1:1'')
     = Rejected (msg_raw (js ''network down''))" by simp
  have "two_fail = take 4 two_fail @ (request_of 2, Inl (Error (js ''overloaded''))) # drop 5 two_fail
        \<and> (2::nat) < 3
        \<and> (\<forall>j<3. \<not> isRejected (direction_call (take 4 two_fail) picture picture picture (adCopy ready)
                                 (js ''1:1'') j))
        \<and> direction_call (take 4 two_fail @ [(request_of 2, Inl (Error (js ''overloaded'')))])
            picture picture picture (adCopy ready) (js ''1:1'') 2
          = Rejected (msg_raw (js ''overloaded''))"
    using two_fail_split two_fail_before two_fail_now by simp
  with generateAds_all_or_nothing
         [of two_fail picture picture picture "adCopy ready" "js ''1:1''" ?v in_order]
  have 4: "generateAds two_fail picture picture picture (adCopy ready) (js ''1:1'')
     = Rejected (msg_raw (js ''overloaded''))" by blast
  from 1 2 3 4 two_fail_calls(1) show ?thesis by simp
qed

section \<open>Edits and regeneration\<close>

lemma matchDataUrl_shape:
  assumes "matchDataUrl baseImage = Some (m, d)"
  shows "\<exists>sub payload. sub \<noteq> [] \<and> payload \<noteq> []
           \<and> baseImage = js ''data:image/'' @ sub @ js '';base64,'' @ payload"
proof -
  let ?rest = "drop 11 baseImage"
  from assms have pre: "take 11 baseImage = js ''data:image/''"
    by (simp add: matchDataUrl_def split: if_splits)
  from assms obtain n where f: "find (splitsAt ?rest) (rev [0..<length ?rest]) = Some n"
    by (auto simp: matchDataUrl_def split: if_splits option.splits)
  then have sp: "splitsAt ?rest n" by (auto simp: find_Some_iff)
  then have n: "0 < n" "take 8 (drop n ?rest) = js '';base64,''" "n + 8 < length ?rest"
    by (simp_all add: splitsAt_def)
  have "?rest = take n ?rest @ drop n ?rest"
    by (simp only: append_take_drop_id)
  also have "drop n ?rest = take 8 (drop n ?rest) @ drop 8 (drop n ?rest)"
    by (simp only: append_take_drop_id)
  also have "drop 8 (drop n ?rest) = drop (n + 8) ?rest"
    by (simp add: ac_simps)
  finally have r: "?rest = take n ?rest @ js '';base64,'' @ drop (n + 8) ?rest"
    by (simp only: n(2))
  have "baseImage = take 11 baseImage @ ?rest"
    by (simp only: append_take_drop_id)
  then have "baseImage = js ''data:image/'' @ take n ?rest @ js '';base64,'' @ drop (n + 8) ?rest"
    using r pre by metis
  moreover have "take n ?rest \<noteq> []" using n by auto
  moreover have "drop (n + 8) ?rest \<noteq> []" using n by auto
  ultimately show ?thesis by blast
qed

text \<open>
  Claim C10. A base image that is not of the shape \<^verbatim>\<open>data:image/<subtype>;base64,<payload>\<close>,
  subtype and payload not empty, is not matched by the pattern of \<open>editAd\<close>; and for a
  base image the pattern does not match, \<open>editAd\<close> fails with \<open>msg_invalid_base\<close> and
  leaves the state of the provider as it was, for every provider: no provider call is
  made and \<open>withRetries\<close> is not entered. With a counter of the provider's calls, the
  counter stays at 0.
\<close>

theorem editAd_rejects_malformed:
  "(\<not> (\<exists>sub payload. sub \<noteq> [] \<and> payload \<noteq> []
           \<and> baseImage = js ''data:image/'' @ sub @ js '';base64,'' @ payload)
      \<longrightarrow> matchDataUrl baseImage = None)
   \<and> (matchDataUrl baseImage = None
      \<longrightarrow> editAd provider baseImage prompt s = (Inl msg_invalid_base, s)
        \<and> editAd (counting_provider provider) baseImage prompt (s, 0) = (Inl msg_invalid_base, (s, 0)))"
proof (intro conjI impI)
  assume "\<not> (\<exists>sub payload. sub \<noteq> [] \<and> payload \<noteq> []
           \<and> baseImage = js ''data:image/'' @ sub @ js '';base64,'' @ payload)"
  then have h: "\<not> (\<exists>sub payload. sub \<noteq> [] \<and> payload \<noteq> []
           \<and> baseImage = js ''data:image/'' @ sub @ js '';base64,'' @ payload)" .
  show "matchDataUrl baseImage = None"
  proof (rule ccontr)
    assume "matchDataUrl baseImage \<noteq> None"
    then obtain m d where "matchDataUrl baseImage = Some (m, d)" by auto
    from h matchDataUrl_shape [OF this] show False by (rule notE)
  qed
next
  assume "matchDataUrl baseImage = None"
  then show "editAd provider baseImage prompt s = (Inl msg_invalid_base, s)"
    by (simp add: editAd_def)
next
  assume "matchDataUrl baseImage = None"
  then show "editAd (counting_provider provider) baseImage prompt (s, 0) = (Inl msg_invalid_base, (s, 0))"
    by (simp add: editAd_def)
qed

text \<open>The theorem at a base image that is a web address.\<close>

theorem editAd_rejects_malformed_witness:
  "editAd (counting_provider numbering_provider) (js ''https://example.com/ad.png'') (js ''bigger logo'') (0, 0)
     = (Inl (js ''Invalid base image data URL format.''), (0, 0))"
proof -
  have "\<not> (\<exists>sub payload. sub \<noteq> [] \<and> payload \<noteq> []
           \<and> js ''https://example.com/ad.png'' = js ''data:image/'' @ sub @ js '';base64,'' @ payload)"
    by (simp add: js_def)
  with editAd_rejects_malformed [of "js ''https://example.com/ad.png''" numbering_provider "js ''bigger logo''" 0]
  show ?thesis by (simp add: msg_invalid_base_def)
qed

text \<open>
  Claim C4. While a regeneration of some index \<open>i\<close> is in progress, a request to
  regenerate any index \<open>j\<close>, \<open>j = i\<close> included, returns at the guard: the state, and with
  it every slot of the result array, is unchanged, and the state of the provider is
  unchanged for every provider, so no second provider call is started.
\<close>

theorem regenerate_rejected_while_regenerating:
  assumes "regeneratingIndex a = Some i"
  shows "handleRegenerateAd_begin j a = Returned a
         \<and> clickRegenerate j a = Returned a
         \<and> handleRegenerateAd provider j a s = (a, s)"
  using assms
  by (simp add: handleRegenerateAd_begin_def clickRegenerate_def handleRegenerateAd_def)

text \<open>The theorem while index 0 is regenerating, at requests for index 2 and for index 0.\<close>

theorem regenerate_rejected_while_regenerating_witness:
  "handleRegenerateAd (counting_provider numbering_provider) 2 (ready\<lparr>regeneratingIndex := Some 0\<rparr>) (0, 0)
     = (ready\<lparr>regeneratingIndex := Some 0\<rparr>, (0, 0))
   \<and> handleRegenerateAd (counting_provider numbering_provider) 0 (ready\<lparr>regeneratingIndex := Some 0\<rparr>) (0, 0)
     = (ready\<lparr>regeneratingIndex := Some 0\<rparr>, (0, 0))"
proof -
  have busy: "regeneratingIndex (ready\<lparr>regeneratingIndex := Some 0\<rparr>) = Some 0" by simp
  from regenerate_rejected_while_regenerating [OF busy, of 2 "counting_provider numbering_provider" "(0, 0)"]
    regenerate_rejected_while_regenerating [OF busy, of 0 "counting_provider numbering_provider" "(0, 0)"]
  show ?thesis by blast
qed

lemma styleVariations_nonempty: "i < length styleVariations \<Longrightarrow> styleVariations ! i \<noteq> []"
proof -
  assume "i < length styleVariations"
  then have "i = 0 \<or> i = 1 \<or> i = 2" by (simp add: styleVariations_def) arith
  then show ?thesis by (auto simp: styleVariations_def js_eq_Nil_iff)
qed

lemma withRetries_failure_classified:
  assumes "fst (withRetries apiCall ctx s) = Inl m"
  shows "\<exists>e. m = handleGeminiError e ctx"
  using assms by (auto simp: withRetries_cases split: sum.splits)

text \<open>
  Claim C5. A regeneration of an in-range slot \<open>i\<close> that passes the guard ends with no
  regeneration marked in progress, with a result array of the same length in which
  every slot but \<open>i\<close> is unchanged, and in one of two ways, by how the generation call
  settled: on success slot \<open>i\<close> holds the new result; on failure the array is unchanged
  and the error is the failure, which is a message made by \<open>handleGeminiError\<close>.
\<close>

theorem regenerate_outcomes:
  assumes "\<not> isGeneratingAds a" and "regeneratingIndex a = None"
    and "imageForAd a = Some p" and "styleImage a = Some st" and "logoImage a = Some l"
    and "i < length styleVariations" and "i < length (generatedAds a)"
    and "generateSingleAd provider p st l (finalAdCopy a) (styleVariations ! i) (aspectRatio a) s
           = (settled, s')"
  shows "\<exists>a'. handleRegenerateAd provider i a s = (a', s')
           \<and> regeneratingIndex a' = None
           \<and> length (generatedAds a') = length (generatedAds a)
           \<and> (\<forall>j. j \<noteq> i \<longrightarrow> generatedAds a' ! j = generatedAds a ! j)
           \<and> (case settled of
                 Inr newAd \<Rightarrow> generatedAds a' ! i = Some newAd \<and> error a' = None
               | Inl m \<Rightarrow> generatedAds a' = generatedAds a \<and> error a' = Some m
                          \<and> (\<exists>e. m = handleGeminiError e (generateSingleAd_context (styleVariations ! i))))"
proof -
  have b: "handleRegenerateAd_begin i a
        = Awaits (a\<lparr>regeneratingIndex := Some i, error := None\<rparr>)
            (p, st, l, finalAdCopy a, styleVariations ! i, aspectRatio a)"
    using assms(1-6) styleVariations_nonempty [OF assms(6)]
    by (simp add: handleRegenerateAd_begin_def)
  have r: "handleRegenerateAd provider i a s
        = (handleRegenerateAd_end i settled (a\<lparr>regeneratingIndex := Some i, error := None\<rparr>), s')"
    by (simp add: handleRegenerateAd_def b assms(8))
  show ?thesis
  proof (cases settled)
    case (Inl m)
    have "fst (withRetries (provider_call provider
             (AdRequest p st l (finalAdCopy a) (styleVariations ! i) (aspectRatio a)) msg_no_image)
             (generateSingleAd_context (styleVariations ! i)) s) = Inl m"
      using assms(8) Inl by (simp add: generateSingleAd_def)
    from withRetries_failure_classified [OF this]
    have "\<exists>e. m = handleGeminiError e (generateSingleAd_context (styleVariations ! i))" .
    with Inl r show ?thesis by (simp add: handleRegenerateAd_end_def)
  next
    case (Inr newAd)
    with r assms(7) show ?thesis by (simp add: handleRegenerateAd_end_def js_assign_def)
  qed
qed

lemma withRetries_first_success:
  assumes "apiCall s = (Inr v, s')"
  shows "withRetries apiCall ctx s = (Inr v, s')"
  using assms by (simp add: withRetries_cases settles_def)

lemma provider_call_numbering:
  "provider_call numbering_provider request failure n
     = (Inr (js ''data:image/png;base64,AAAA'' @ showNat n), Suc n)"
  by (simp add: provider_call_def numbering_provider_def imageOrThrow_def findImagePart_def
      png_def dataUrl_def template_def js_def)

lemma provider_call_failing:
  "provider_call failing_provider request failure n = (Inl (Error (js ''network down'')), Suc n)"
  by (simp add: provider_call_def failing_provider_def imageOrThrow_def)

lemma withRetries_failing:
  "withRetries (provider_call failing_provider request failure) ctx 0
     = (Inl (msg_raw (js ''network down'')), 3)"
  by (simp add: withRetries_cases settles_def provider_call_failing numeral_2_eq_2
      numeral_3_eq_3 handle_plain)

text \<open>
  The theorem at slot 1 of three results, with a provider that answers with an image
  and with one that always fails.
\<close>

theorem regenerate_outcomes_witness:
  "regeneratingIndex (fst (handleRegenerateAd numbering_provider 1 ready 0)) = None
   \<and> generatedAds (fst (handleRegenerateAd numbering_provider 1 ready 0))
       = [Some (js ''data:image/png;base64,AD0''), Some (js ''data:image/png;base64,AAAA0''),
          Some (js ''data:image/png;base64,AD2'')]
   \<and> regeneratingIndex (fst (handleRegenerateAd failing_provider 1 ready 0)) = None
   \<and> generatedAds (fst (handleRegenerateAd failing_provider 1 ready 0)) = generatedAds ready
   \<and> error (fst (handleRegenerateAd failing_provider 1 ready 0)) = Some (msg_raw (js ''network down''))"
proof -
  have pre: "\<not> isGeneratingAds ready" "regeneratingIndex ready = None"
    "imageForAd ready = Some picture" "styleImage ready = Some picture"
    "logoImage ready = Some picture" "1 < length styleVariations"
    "1 < length (generatedAds ready)"
    by (simp_all add: ready_def styleVariations_def)
  have ok: "generateSingleAd numbering_provider picture picture picture (finalAdCopy ready)
              (styleVariations ! 1) (aspectRatio ready) 0
            = (Inr (js ''data:image/png;base64,AAAA0''), 1)"
    unfolding generateSingleAd_def
    by (rule withRetries_first_success [THEN trans [OF _ refl]])
       (simp add: provider_call_numbering showNat.simps js_def)
  have bad: "generateSingleAd failing_provider picture picture picture (finalAdCopy ready)
              (styleVariations ! 1) (aspectRatio ready) 0
            = (Inl (msg_raw (js ''network down'')), 3)"
    unfolding generateSingleAd_def by (rule withRetries_failing)
  from regenerate_outcomes [OF pre ok] obtain a' where
    a: "handleRegenerateAd numbering_provider 1 ready 0 = (a', 1)" "regeneratingIndex a' = None"
       "length (generatedAds a') = length (generatedAds ready)"
       "\<forall>j. j \<noteq> 1 \<longrightarrow> generatedAds a' ! j = generatedAds ready ! j"
       "generatedAds a' ! 1 = Some (js ''data:image/png;base64,AAAA0'')"
    by auto
  have "generatedAds a' = [Some (js ''data:image/png;base64,AD0''), Some (js ''data:image/png;base64,AAAA0''),
          Some (js ''data:image/png;base64,AD2'')]"
  proof (rule nth_equalityI)
    show "length (generatedAds a') = length [Some (js ''data:image/png;base64,AD0''),
          Some (js ''data:image/png;base64,AAAA0''), Some (js ''data:image/png;base64,AD2'')]"
      using a(3) by (simp add: ready_def)
  next
    fix j assume "j < length (generatedAds a')"
    then have "j = 0 \<or> j = 1 \<or> j = 2" using a(3) by (simp add: ready_def) arith
    then show "generatedAds a' ! j = [Some (js ''data:image/png;base64,AD0''),
          Some (js ''data:image/png;base64,AAAA0''), Some (js ''data:image/png;base64,AD2'')] ! j"
      using a(4,5) by (auto simp: ready_def)
  qed
  moreover from regenerate_outcomes [OF pre bad] obtain b' where
    "handleRegenerateAd failing_provider 1 ready 0 = (b', 3)" "regeneratingIndex b' = None"
    "generatedAds b' = generatedAds ready" "error b' = Some (msg_raw (js ''network down''))"
    by auto
  ultimately show ?thesis using a(1,2) by simp
qed

text \<open>
  Claim C6. For a session opened on a slot holding \<open>orig\<close>: after a successful apply
  with result \<open>e1\<close> the history is \<open>[orig, e1]\<close>; after a second one with result \<open>e2\<close> it
  is \<open>[orig, e1, e2]\<close>; after undo \<open>[orig, e1]\<close>; after revert \<open>[orig]\<close>; and undo on
  \<open>[orig]\<close> changes nothing. After each step the slot of the result array at the
  session's index holds the last entry of the history.
\<close>

theorem edit_session_history:
  assumes "i < length (generatedAds a0)" and "generatedAds a0 ! i = Some orig"
    and "trim p1 \<noteq> []" and "trim p2 \<noteq> []"
    and "editAd provider orig p1 s0 = (Inr e1, s1)"
    and "editAd provider e1 p2 s1 = (Inr e2, s2)"
  shows "let a1 = handleSelectAdForEdit i a0;
             r2 = handleApplyEdit provider (setEditPrompt p1 a1) s0;
             r3 = handleApplyEdit provider (setEditPrompt p2 (fst r2)) (snd r2);
             a4 = handleUndoEdit (fst r3);
             a5 = handleRevertToOriginal a4;
             a6 = handleUndoEdit a5
         in sessionHistory a1 = Some [Some orig] \<and> slot a1 i = Some orig
          \<and> sessionHistory (fst r2) = Some [Some orig, Some e1] \<and> slot (fst r2) i = Some e1
          \<and> sessionHistory (fst r3) = Some [Some orig, Some e1, Some e2] \<and> slot (fst r3) i = Some e2
          \<and> sessionHistory a4 = Some [Some orig, Some e1] \<and> slot a4 i = Some e1
          \<and> sessionHistory a5 = Some [Some orig] \<and> slot a5 i = Some orig
          \<and> a6 = a5"
proof -
  define a1 where "a1 = handleSelectAdForEdit i a0"
  define a2 where "a2 = fst (handleApplyEdit provider (setEditPrompt p1 a1) s0)"
  define a3 where "a3 = fst (handleApplyEdit provider (setEditPrompt p2 a2) s1)"
  define a4 where "a4 = handleUndoEdit a3"
  define a5 where "a5 = handleRevertToOriginal a4"
  have e1: "editingAd a1 = Some \<lparr>index = i, originalData = Some orig, history = [Some orig]\<rparr>"
    and g1: "generatedAds a1 = generatedAds a0"
    using assms(1,2) by (simp_all add: a1_def handleSelectAdForEdit_def js_index_def)
  have r2: "handleApplyEdit provider (setEditPrompt p1 a1) s0
        = (handleApplyEdit_end (generatedAds a0) i (Inr e1)
             ((setEditPrompt p1 a1)\<lparr>isEditing := True, error := None\<rparr>), s1)"
    using assms(3,5) e1 g1
    by (simp add: handleApplyEdit_def handleApplyEdit_begin_def setEditPrompt_def js_last_def)
  have e2: "editingAd a2 = Some \<lparr>index = i, originalData = Some orig, history = [Some orig, Some e1]\<rparr>"
    and g2: "generatedAds a2 = (generatedAds a0)[i := Some e1]"
    unfolding a2_def r2 using assms(1) e1
    by (simp_all add: handleApplyEdit_end_def setEditPrompt_def js_assign_def)
  have r3: "handleApplyEdit provider (setEditPrompt p2 a2) s1
        = (handleApplyEdit_end (generatedAds a2) i (Inr e2)
             ((setEditPrompt p2 a2)\<lparr>isEditing := True, error := None\<rparr>), s2)"
    using assms(4,6) e2
    by (simp add: handleApplyEdit_def handleApplyEdit_begin_def setEditPrompt_def js_last_def)
  have e3: "editingAd a3 = Some \<lparr>index = i, originalData = Some orig,
                                 history = [Some orig, Some e1, Some e2]\<rparr>"
    and g3: "generatedAds a3 = (generatedAds a0)[i := Some e2]"
    unfolding a3_def r3 using assms(1) e2 g2
    by (simp_all add: handleApplyEdit_end_def setEditPrompt_def js_assign_def)
  have e4: "editingAd a4 = Some \<lparr>index = i, originalData = Some orig, history = [Some orig, Some e1]\<rparr>"
    and g4: "generatedAds a4 = (generatedAds a0)[i := Some e1]"
    using assms(1) e3 g3
    by (simp_all add: a4_def handleUndoEdit_def js_assign_def js_last_def)
  have e5: "editingAd a5 = Some \<lparr>index = i, originalData = Some orig, history = [Some orig]\<rparr>"
    and g5: "generatedAds a5 = (generatedAds a0)[i := Some orig]"
    using assms(1) e4 g4
    by (simp_all add: a5_def handleRevertToOriginal_def js_assign_def)
  have a6: "handleUndoEdit a5 = a5"
    using e5 by (simp add: handleUndoEdit_def)
  have s2: "snd (handleApplyEdit provider (setEditPrompt p1 a1) s0) = s1"
    by (simp add: r2)
  show ?thesis
    unfolding Let_def s2 a1_def [symmetric] a2_def [symmetric] a3_def [symmetric]
      a4_def [symmetric] a5_def [symmetric]
    using assms(1,2)
    by (simp add: sessionHistory_def slot_def js_index_def e1 g1 e2 g2 e3 g3 e4 g4 e5 g5 a6)
qed

lemma matchDataUrl_AD0: "matchDataUrl (js ''data:image/png;base64,AD0'') = Some (js ''image/png'', js ''AD0'')"
  by code_simp

lemma matchDataUrl_AAAA0:
  "matchDataUrl (js ''data:image/png;base64,AAAA0'') = Some (js ''image/png'', js ''AAAA0'')"
  by code_simp

lemma editAd_numbering:
  assumes "matchDataUrl baseImage = Some (m, d)"
  shows "editAd numbering_provider baseImage prompt n
           = (Inr (js ''data:image/png;base64,AAAA'' @ showNat n), Suc n)"
  unfolding editAd_def using assms
  by (simp add: withRetries_first_success [OF provider_call_numbering])

lemma trim_examples: "trim (js ''make the logo bigger'') \<noteq> []" "trim (js ''warmer colours'') \<noteq> []"
  by code_simp+

text \<open>The theorem on slot 0 of three results, with a provider that numbers its images.\<close>

theorem edit_session_history_witness:
  "let a1 = handleSelectAdForEdit 0 ready;
       r2 = handleApplyEdit numbering_provider (setEditPrompt (js ''make the logo bigger'') a1) 0;
       r3 = handleApplyEdit numbering_provider (setEditPrompt (js ''warmer colours'') (fst r2)) (snd r2);
       a4 = handleUndoEdit (fst r3);
       a5 = handleRevertToOriginal a4;
       a6 = handleUndoEdit a5
   in sessionHistory a1 = Some [Some (js ''data:image/png;base64,AD0'')]
    \<and> slot a1 0 = Some (js ''data:image/png;base64,AD0'')
    \<and> sessionHistory (fst r2) = Some [Some (js ''data:image/png;base64,AD0''), Some (js ''data:image/png;base64,AAAA0'')]
    \<and> slot (fst r2) 0 = Some (js ''data:image/png;base64,AAAA0'')
    \<and> sessionHistory (fst r3) = Some [Some (js ''data:image/png;base64,AD0''), Some (js ''data:image/png;base64,AAAA0''),
                                        Some (js ''data:image/png;base64,AAAA1'')]
    \<and> slot (fst r3) 0 = Some (js ''data:image/png;base64,AAAA1'')
    \<and> sessionHistory a4 = Some [Some (js ''data:image/png;base64,AD0''), Some (js ''data:image/png;base64,AAAA0'')]
    \<and> slot a4 0 = Some (js ''data:image/png;base64,AAAA0'')
    \<and> sessionHistory a5 = Some [Some (js ''data:image/png;base64,AD0'')]
    \<and> slot a5 0 = Some (js ''data:image/png;base64,AD0'')
    \<and> a6 = a5"
proof -
  have 1: "0 < length (generatedAds ready)" "generatedAds ready ! 0 = Some (js ''data:image/png;base64,AD0'')"
    by (simp_all add: ready_def)
  have 2: "editAd numbering_provider (js ''data:image/png;base64,AD0'') (js ''make the logo bigger'') 0
           = (Inr (js ''data:image/png;base64,AAAA0''), 1)"
    using editAd_numbering [OF matchDataUrl_AD0, of "js ''make the logo bigger''" 0]
    by (simp add: showNat.simps js_def)
  have 3: "editAd numbering_provider (js ''data:image/png;base64,AAAA0'') (js ''warmer colours'') 1
           = (Inr (js ''data:image/png;base64,AAAA1''), 2)"
    using editAd_numbering [OF matchDataUrl_AAAA0, of "js ''warmer colours''" 1]
    by (simp add: showNat.simps numeral_2_eq_2 js_def)
  from edit_session_history [OF 1 trim_examples 2 3] show ?thesis .
qed

section \<open>Apply, the busy flags and the safety message\<close>

text \<open>
  Claim C7. A click on Apply with a blank prompt, with an edit in flight or without a
  session starts no provider call and changes nothing: the first and the last case by
  the guard of \<open>handleApplyEdit\<close>, the edit in flight by the button, which is disabled
  while \<open>isEditing\<close> holds. When the edit call fails, the state changes in its error
  alone, which becomes the failure: the history, the result array and the prompt are
  as before. When it succeeds the prompt is cleared.
\<close>

theorem apply_edit_preconditions_and_failure:
  "(trim (editPrompt a) = [] \<or> isEditing a \<or> editingAd a = None
      \<longrightarrow> clickApplyEdit_begin a = Returned a \<and> clickApplyEdit provider a s = (a, s))
   \<and> (trim (editPrompt a) = [] \<or> editingAd a = None
      \<longrightarrow> handleApplyEdit_begin a = Returned a \<and> handleApplyEdit provider a s = (a, s))
   \<and> (\<forall>e cur m s'.
         editPanelShown a \<and> applyEnabled a \<and> editingAd a = Some e \<and> js_last (history e) = Some cur
         \<and> editAd provider cur (editPrompt a) s = (Inl m, s')
         \<longrightarrow> clickApplyEdit provider a s = (a\<lparr>error := Some m\<rparr>, s')
           \<and> editingAd (a\<lparr>error := Some m\<rparr>) = editingAd a
           \<and> generatedAds (a\<lparr>error := Some m\<rparr>) = generatedAds a
           \<and> editPrompt (a\<lparr>error := Some m\<rparr>) = editPrompt a)
   \<and> (\<forall>e cur v s'.
         editPanelShown a \<and> applyEnabled a \<and> editingAd a = Some e \<and> js_last (history e) = Some cur
         \<and> editAd provider cur (editPrompt a) s = (Inr v, s')
         \<longrightarrow> editPrompt (fst (clickApplyEdit provider a s)) = [])"
proof (intro conjI allI impI)
  assume "trim (editPrompt a) = [] \<or> isEditing a \<or> editingAd a = None"
  then show "clickApplyEdit_begin a = Returned a"
    by (auto simp: clickApplyEdit_begin_def applyEnabled_def editPanelShown_def isSet_def)
next
  assume "trim (editPrompt a) = [] \<or> isEditing a \<or> editingAd a = None"
  then show "clickApplyEdit provider a s = (a, s)"
    by (auto simp: clickApplyEdit_def applyEnabled_def editPanelShown_def isSet_def)
next
  assume "trim (editPrompt a) = [] \<or> editingAd a = None"
  then show "handleApplyEdit_begin a = Returned a"
    by (auto simp: handleApplyEdit_begin_def split: option.splits)
next
  assume "trim (editPrompt a) = [] \<or> editingAd a = None"
  then show "handleApplyEdit provider a s = (a, s)"
    by (auto simp: handleApplyEdit_def handleApplyEdit_begin_def split: option.splits)
next
  fix e cur m s'
  assume h: "editPanelShown a \<and> applyEnabled a \<and> editingAd a = Some e \<and> js_last (history e) = Some cur
         \<and> editAd provider cur (editPrompt a) s = (Inl m, s')"
  then have "\<not> isEditing a" "trim (editPrompt a) \<noteq> []" by (simp_all add: applyEnabled_def)
  with h show "clickApplyEdit provider a s = (a\<lparr>error := Some m\<rparr>, s')"
    by (simp add: clickApplyEdit_def handleApplyEdit_def handleApplyEdit_begin_def
        handleApplyEdit_end_def)
next
  fix e cur v s'
  assume h: "editPanelShown a \<and> applyEnabled a \<and> editingAd a = Some e \<and> js_last (history e) = Some cur
         \<and> editAd provider cur (editPrompt a) s = (Inr v, s')"
  then have "trim (editPrompt a) \<noteq> []" by (simp add: applyEnabled_def)
  with h show "editPrompt (fst (clickApplyEdit provider a s)) = []"
    by (simp add: clickApplyEdit_def handleApplyEdit_def handleApplyEdit_begin_def
        handleApplyEdit_end_def)
qed simp_all

lemma editAd_failing:
  assumes "matchDataUrl baseImage = Some (m, d)"
  shows "editAd failing_provider baseImage prompt 0 = (Inl (msg_raw (js ''network down'')), 3)"
  unfolding editAd_def using assms by (simp add: withRetries_failing)

lemma editing0_eq:
  "editing0 = ready\<lparr>editingAd := Some \<lparr>index = 0, originalData = Some (js ''data:image/png;base64,AD0''),
                                        history = [Some (js ''data:image/png;base64,AD0'')]\<rparr>,
                     editPrompt := (js ''make the logo bigger'')\<rparr>"
  by (simp add: editing0_def setEditPrompt_def handleSelectAdForEdit_def js_index_def ready_def)

lemma editing0_fields:
  "editingAd editing0 = Some \<lparr>index = 0, originalData = Some (js ''data:image/png;base64,AD0''),
                              history = [Some (js ''data:image/png;base64,AD0'')]\<rparr>"
  "editPrompt editing0 = js ''make the logo bigger''"
  "isEditing editing0 = False" "isGeneratingAds editing0 = False"
  "regeneratingIndex editing0 = None" "error editing0 = None"
  "generatedAds editing0 = generatedAds ready"
  by (simp_all add: editing0_eq) (simp_all add: ready_def)

lemma editing0_enabled: "editPanelShown editing0" "applyEnabled editing0"
  by (simp_all add: editPanelShown_def applyEnabled_def errorShown_def isSet_def editing0_fields
      trim_examples)

text \<open>
  The theorem at a session with a blank prompt, at a session with an edit in flight,
  and at a session ready to apply, with a provider that always fails and with one that
  answers.
\<close>

theorem apply_edit_preconditions_and_failure_witness:
  "clickApplyEdit (counting_provider numbering_provider) blank_prompt (0, 0) = (blank_prompt, (0, 0))
   \<and> clickApplyEdit (counting_provider numbering_provider) in_edit (0, 0) = (in_edit, (0, 0))
   \<and> handleApplyEdit (counting_provider numbering_provider) blank_prompt (0, 0) = (blank_prompt, (0, 0))
   \<and> clickApplyEdit failing_provider editing0 0
       = (editing0\<lparr>error := Some (msg_raw (js ''network down''))\<rparr>, 3)
   \<and> editPrompt (fst (clickApplyEdit numbering_provider editing0 0)) = []"
proof -
  have b: "trim (editPrompt blank_prompt) = []"
  proof -
    have "trim (js ''   '') = []" by code_simp
    then show ?thesis by (simp add: blank_prompt_def setEditPrompt_def)
  qed
  have i: "isEditing in_edit" by (simp add: in_edit_def)
  have f: "editPanelShown editing0 \<and> applyEnabled editing0
         \<and> editingAd editing0 = Some \<lparr>index = 0, originalData = Some (js ''data:image/png;base64,AD0''),
                              history = [Some (js ''data:image/png;base64,AD0'')]\<rparr>
         \<and> js_last (history \<lparr>index = 0, originalData = Some (js ''data:image/png;base64,AD0''),
                              history = [Some (js ''data:image/png;base64,AD0'')]\<rparr>)
             = Some (js ''data:image/png;base64,AD0'')
         \<and> editAd failing_provider (js ''data:image/png;base64,AD0'') (editPrompt editing0) 0
             = (Inl (msg_raw (js ''network down'')), 3)"
    by (simp add: editing0_enabled editing0_fields js_last_def editAd_failing [OF matchDataUrl_AD0])
  have g: "editPanelShown editing0 \<and> applyEnabled editing0
         \<and> editingAd editing0 = Some \<lparr>index = 0, originalData = Some (js ''data:image/png;base64,AD0''),
                              history = [Some (js ''data:image/png;base64,AD0'')]\<rparr>
         \<and> js_last (history \<lparr>index = 0, originalData = Some (js ''data:image/png;base64,AD0''),
                              history = [Some (js ''data:image/png;base64,AD0'')]\<rparr>)
             = Some (js ''data:image/png;base64,AD0'')
         \<and> editAd numbering_provider (js ''data:image/png;base64,AD0'') (editPrompt editing0) 0
             = (Inr (js ''data:image/png;base64,AAAA'' @ showNat 0), Suc 0)"
    by (simp add: editing0_enabled editing0_fields js_last_def editAd_numbering [OF matchDataUrl_AD0])
  note t1 = apply_edit_preconditions_and_failure
              [of blank_prompt "counting_provider numbering_provider" "(0, 0)"]
  note t2 = apply_edit_preconditions_and_failure
              [of in_edit "counting_provider numbering_provider" "(0, 0)"]
  note t3 = apply_edit_preconditions_and_failure [of editing0 failing_provider 0]
  note t4 = apply_edit_preconditions_and_failure [of editing0 numbering_provider 0]
  from t1 b have 1: "clickApplyEdit (counting_provider numbering_provider) blank_prompt (0, 0)
                      = (blank_prompt, (0, 0))"
    and 3: "handleApplyEdit (counting_provider numbering_provider) blank_prompt (0, 0)
                      = (blank_prompt, (0, 0))" by blast+
  from t2 i have 2: "clickApplyEdit (counting_provider numbering_provider) in_edit (0, 0)
                      = (in_edit, (0, 0))" by blast
  from t3 f have 4: "clickApplyEdit failing_provider editing0 0
       = (editing0\<lparr>error := Some (msg_raw (js ''network down''))\<rparr>, 3)" by blast
  from t4 g have 5: "editPrompt (fst (clickApplyEdit numbering_provider editing0 0)) = []" by blast
  from 1 2 3 4 5 show ?thesis by blast
qed

text \<open>
  Claim C3 does not hold of the code. From a session on slot 0 with a prompt, a click
  on Apply puts an edit in flight (\<open>isEditing\<close>). In that state a click on the submit
  button is accepted: it empties the result array and awaits \<open>generateAds\<close>. And after
  a click on the button that leaves the edit panel, with the edit still in flight, a
  click on Regenerate for slot 1 is accepted: a regeneration and an edit are then in
  flight together.
\<close>

theorem edit_in_flight_blocks_nothing:
  "clickApplyEdit_begin editing0
     = Awaits in_edit (js ''data:image/png;base64,AD0'', js ''make the logo bigger'', generatedAds ready, 0)
   \<and> isEditing in_edit
   \<and> clickSubmit in_edit
       = Awaits (in_edit\<lparr>generatedAds := [], isGeneratingAds := True, loadingMessage := msg_blending\<rparr>)
           (picture, picture, picture, adCopy ready, js ''1:1'')
   \<and> clickCancelEdit in_edit = ready\<lparr>isEditing := True\<rparr>
   \<and> clickRegenerate 1 (ready\<lparr>isEditing := True\<rparr>)
       = Awaits (ready\<lparr>regeneratingIndex := Some 1, isEditing := True\<rparr>)
           (picture, picture, picture, adCopy ready, styleVariations ! 1, js ''1:1'')"
proof -
  have 1: "clickApplyEdit_begin editing0
     = Awaits in_edit (js ''data:image/png;base64,AD0'', js ''make the logo bigger'', generatedAds ready, 0)"
    by (simp add: clickApplyEdit_begin_def editing0_enabled handleApplyEdit_begin_def
        editing0_fields trim_examples js_last_def in_edit_def)
  have ie: "in_edit = ready\<lparr>editingAd := Some \<lparr>index = 0, originalData = Some (js ''data:image/png;base64,AD0''),
                                        history = [Some (js ''data:image/png;base64,AD0'')]\<rparr>,
                     editPrompt := js ''make the logo bigger'', isEditing := True\<rparr>"
    by (simp add: in_edit_def editing0_eq)
  have 2: "isEditing in_edit" by (simp add: in_edit_def)
  have 3: "clickSubmit in_edit
       = Awaits (in_edit\<lparr>generatedAds := [], isGeneratingAds := True, loadingMessage := msg_blending\<rparr>)
           (picture, picture, picture, adCopy ready, js ''1:1'')"
    unfolding ie
    by (simp add: clickSubmit_def submitEnabled_def isFormValid_def isSet_def handleSubmit_begin_def
        finalAdCopy_def ready_def js_simps)
  have 4: "clickCancelEdit in_edit = ready\<lparr>isEditing := True\<rparr>"
    unfolding ie
    by (simp add: clickCancelEdit_def editPanelShown_def errorShown_def isSet_def handleCancelEdit_def
        ready_def)
  have 5: "clickRegenerate 1 (ready\<lparr>isEditing := True\<rparr>)
       = Awaits (ready\<lparr>regeneratingIndex := Some 1, isEditing := True\<rparr>)
           (picture, picture, picture, adCopy ready, styleVariations ! 1, js ''1:1'')"
    by (simp add: clickRegenerate_def resultsShown_def errorShown_def regenerateEnabled_def
        handleRegenerateAd_begin_def finalAdCopy_def ready_def styleVariations_def js_simps)
  from 1 2 3 4 5 show ?thesis by blast
qed

lemma classify_safety:
  assumes "map lowerAscii w = js ''safety''"
    and "getProp parsedError (js ''status'') \<noteq> Some (JString (js ''RESOURCE_EXHAUSTED''))"
  shows "classify parsedError (JString (p @ w @ q)) = Some msg_safety"
proof -
  have inc: "toLowerCase_includes_safety (p @ w @ q)"
    unfolding toLowerCase_includes_safety_def str_includes_iff map_append assms(1) by blast
  have "(case getProp parsedError (js ''status'') of None \<Rightarrow> JString (js ''N/A'')
          | Some st \<Rightarrow> if truthy st then st else JString (js ''N/A'')) \<noteq> JString (js ''RESOURCE_EXHAUSTED'')"
    using assms(2) by (auto split: option.splits simp: js_simps)
  then show ?thesis by (simp add: classify_def Let_def inc)
qed

text \<open>
  Claim C9, amended. If every attempt fails and the message of the last error holds,
  between its first opening and its last closing brace, JSON whose \<^verbatim>\<open>error\<close> member has
  a string \<^verbatim>\<open>message\<close> containing \<^verbatim>\<open>safety\<close> in any letter case (a run \<open>w\<close> of six code
  units that are its letters, capital or small) and a \<^verbatim>\<open>status\<close> other than
  \<^verbatim>\<open>RESOURCE_EXHAUSTED\<close>, the failure surfaced is the content-policy message.
\<close>

theorem safety_message_for_structured_payload:
  assumes "\<forall>j<MAX_RETRIES. isl (settles apiCall s j)"
    and "settles apiCall s (MAX_RETRIES - 1) = Inl (Error m)"
    and "jsonMatch m = Some jsonText" and "JSON_parse jsonText = Some parsed"
    and "getProp parsed (js ''error'') = Some parsedError"
    and "getProp parsedError (js ''message'') = Some (JString (p @ w @ q))"
    and "map lowerAscii w = js ''safety''"
    and "getProp parsedError (js ''status'') \<noteq> Some (JString (js ''RESOURCE_EXHAUSTED''))"
  shows "fst (withRetries apiCall ctx s) = Inl msg_safety"
proof -
  have w: "w \<noteq> []" using assms(7) by (auto simp: js_def)
  have pn: "parsed \<noteq> JNull" using assms(5) by auto
  have obj: "truthy parsedError" using assms(6) by (cases parsedError) auto
  have "try_parse msg_unexpected jsonText = Some msg_safety"
    using assms(4,5,6) pn obj w classify_safety [OF assms(7,8)]
    by (simp add: try_parse_def)
  then have "handleGeminiError (Error m) ctx = msg_safety"
    by (simp add: handleGeminiError_def assms(3))
  then show ?thesis
    unfolding withRetries_all_fail [OF assms(1)] assms(2) by simp
qed

lemma safety_structured_match:
  \<open>jsonMatch safety_structured
    = Some (js ''{"error":{"code":400,"message":"Blocked by Safety filters","status":"INVALID_ARGUMENT"}}'')\<close>
  unfolding safety_structured_def by (simp add: jsonMatch_def js_def)

lemma safety_structured_parse:
  \<open>JSON_parse (js ''{"error":{"code":400,"message":"Blocked by Safety filters","status":"INVALID_ARGUMENT"}}'')
    = Some (JObject [(js ''error'', JObject [(js ''code'', JNumber False (to_double 400 0)),
                                          (js ''message'', JString (js ''Blocked by Safety filters'')),
                                          (js ''status'', JString (js ''INVALID_ARGUMENT''))])])\<close>
  by (simp add: JSON_parse_def lex_defs)

lemma safety_escaped_match: "jsonMatch safety_escaped = Some safety_escaped"
  unfolding safety_escaped_def by (simp add: jsonMatch_def js_def backslash_def)

lemma safety_escaped_parse:
  "JSON_parse safety_escaped
    = Some (JObject [(js ''error'', JObject [(js ''status'', JString (js ''X'')),
                                          (js ''message'', JString (0x4E2D # js '' SAFETY''))])])"
  unfolding safety_escaped_def by (simp add: JSON_parse_def lex_defs)

text \<open>
  The theorem at an operation that always fails with a status line and a payload, and
  at one whose payload writes a code unit above 255 as an escape before the word.
\<close>

theorem safety_message_for_structured_payload_witness:
  "fst (withRetries (always_fails safety_structured) (js ''ad'') 0) = Inl msg_safety
   \<and> fst (withRetries (always_fails safety_escaped) (js ''ad'') 0) = Inl msg_safety"
proof -
  have 1: "\<forall>j<MAX_RETRIES. isl (settles (always_fails m) 0 j)" for m
    by (simp add: settles_always_fails)
  have 2: "settles (always_fails m) 0 (MAX_RETRIES - 1) = Inl (Error m)" for m
    by (simp add: settles_always_fails)
  have 5: "getProp (JObject [(js ''error'', JObject [(js ''code'', JNumber False (to_double 400 0)),
                                          (js ''message'', JString (js ''Blocked by Safety filters'')),
                                          (js ''status'', JString (js ''INVALID_ARGUMENT''))])]) (js ''error'')
           = Some (JObject [(js ''code'', JNumber False (to_double 400 0)),
                            (js ''message'', JString (js ''Blocked by Safety filters'')),
                            (js ''status'', JString (js ''INVALID_ARGUMENT''))])"
    by simp
  have 6: "getProp (JObject [(js ''code'', JNumber False (to_double 400 0)),
                            (js ''message'', JString (js ''Blocked by Safety filters'')),
                            (js ''status'', JString (js ''INVALID_ARGUMENT''))]) (js ''message'')
           = Some (JString (js ''Blocked by '' @ js ''Safety'' @ js '' filters''))"
    by (simp add: js_simps js_append [symmetric])
  have 7: "map lowerAscii (js ''Safety'') = js ''safety''" by (simp add: js_def lowerAscii_def)
  have 8: "getProp (JObject [(js ''code'', JNumber False (to_double 400 0)),
                            (js ''message'', JString (js ''Blocked by Safety filters'')),
                            (js ''status'', JString (js ''INVALID_ARGUMENT''))]) (js ''status'')
           \<noteq> Some (JString (js ''RESOURCE_EXHAUSTED''))"
    by (simp add: js_simps)
  have e5: "getProp (JObject [(js ''error'', JObject [(js ''status'', JString (js ''X'')),
                                          (js ''message'', JString (0x4E2D # js '' SAFETY''))])])
              (js ''error'')
            = Some (JObject [(js ''status'', JString (js ''X'')),
                             (js ''message'', JString (0x4E2D # js '' SAFETY''))])"
    by simp
  have e6: "getProp (JObject [(js ''status'', JString (js ''X'')),
                             (js ''message'', JString (0x4E2D # js '' SAFETY''))]) (js ''message'')
            = Some (JString ([0x4E2D, 0x20] @ js ''SAFETY'' @ []))"
    by (simp add: js_simps) (simp add: js_def)
  have e7: "map lowerAscii (js ''SAFETY'') = js ''safety''" by (simp add: js_def lowerAscii_def)
  have e8: "getProp (JObject [(js ''status'', JString (js ''X'')),
                             (js ''message'', JString (0x4E2D # js '' SAFETY''))]) (js ''status'')
            \<noteq> Some (JString (js ''RESOURCE_EXHAUSTED''))"
    by (simp add: js_simps)
  from safety_message_for_structured_payload
         [OF 1 2 safety_structured_match safety_structured_parse 5 6 7 8]
    safety_message_for_structured_payload
         [OF 1 2 safety_escaped_match safety_escaped_parse e5 e6 e7 e8]
  show ?thesis by simp
qed

lemma handle_safety_plain: "handleGeminiError (Error safety_plain) ctx = msg_raw safety_plain"
  by (simp add: handleGeminiError_def jsonMatch_none safety_plain_def js_def)

lemma handle_safety_with_quota: "handleGeminiError (Error safety_with_quota) ctx = msg_quota"
proof -
  have "handleGeminiError (Error safety_with_quota) [] = msg_quota"
    unfolding safety_with_quota_def by (simp add: handle_defs lex_defs)
  then show ?thesis by (simp add: handleGeminiError_def)
qed

text \<open>
  Claim C9 as stated fails. An error whose message contains \<^verbatim>\<open>SAFETY\<close> but no braces
  surfaces the message with the raw text; one whose payload has status
  \<^verbatim>\<open>RESOURCE_EXHAUSTED\<close> and a message containing \<^verbatim>\<open>safety\<close> surfaces the quota message.
\<close>

theorem safety_substring_counterexample:
  "toLowerCase_includes_safety safety_plain
   \<and> fst (withRetries (always_fails safety_plain) (js ''ad'') 0) = Inl (msg_raw safety_plain)
   \<and> msg_raw safety_plain \<noteq> msg_safety
   \<and> toLowerCase_includes_safety safety_with_quota
   \<and> fst (withRetries (always_fails safety_with_quota) (js ''ad'') 0) = Inl msg_quota
   \<and> msg_quota \<noteq> msg_safety"
proof -
  have 1: "toLowerCase_includes_safety safety_plain"
    unfolding safety_plain_def by (simp add: toLowerCase_includes_safety_def lowerAscii_def js_def)
  have 2: "toLowerCase_includes_safety safety_with_quota"
    unfolding safety_with_quota_def
    by (simp add: toLowerCase_includes_safety_def lowerAscii_def js_def)
  have 3: "fst (withRetries (always_fails m) (js ''ad'') 0) = Inl (handleGeminiError (Error m) (js ''ad''))" for m
    using withRetries_all_fail [of "always_fails m" 0 "js ''ad''"]
    by (simp add: settles_always_fails)
  show ?thesis
    by (simp add: 1 2 3 handle_safety_plain handle_safety_with_quota)
       (simp add: msg_raw_def msg_safety_def msg_quota_def safety_plain_def
          js_append [symmetric] js_simps)
qed

end
